theory Spec2Isabelle
  imports Complex_Main "HOL-Library.Sublist"
begin

section \<open>Data model of the Expo push client\<close>

text \<open>
  Go pointers that the code compares with \<open>nil\<close> or dereferences are options
  (\<open>None\<close> is \<open>nil\<close>); a nil slice or nil map, where the code tells it from an
  empty one, is \<open>None\<close> as well. A Go \<open>map[string]string\<close> is a partial function;
  reading a missing key gives the empty string, as \<open>lookup\<close> does.
\<close>

type_synonym Token = string

type_synonym Data = "string \<rightharpoonup> string"

definition lookup :: "Data \<Rightarrow> string \<Rightarrow> string" where
  "lookup m k = (case m k of None \<Rightarrow> [] | Some v \<Rightarrow> v)"

definition ErrorMsgDeviceNotRegistered :: string where
  "ErrorMsgDeviceNotRegistered = ''DeviceNotRegistered''"

definition ErrMsgMalformedToken :: string where
  "ErrMsgMalformedToken = ''token should start with ExponentPushToken''"

record Message =
  To :: "Token option list"
  Title :: string
  Body :: string
  Data :: "Data option"
  Sound :: string
  TTL :: int
  Expiration :: int
  Priority :: string
  Badge :: int
  ChannelID :: string
  Subtitle :: string
  InterruptionLevel :: string
  MutableContent :: bool
  ContentAvailable :: bool
  Icon :: string
  RichContent :: "Data option"
  CategoryID :: string

text \<open>The ticket of one (message, recipient) pair, \<open>MessageResponse\<close> in the source.\<close>

record MessageResponse =
  MessageItem :: "Message option"
  ID :: string
  Status :: string
  Message :: string
  Details :: "Data option"

text \<open>The decoded body of a publish reply: \<open>Data\<close> is a slice of ticket pointers.\<close>

record Response =
  RespData :: "MessageResponse option list option"
  RespErrors :: "Data list option"

record PushReceipt =
  ReceiptStatus :: string
  ReceiptMessage :: string
  ReceiptDetails :: "Data option"

record PushReceiptResponse =
  ReceiptData :: "(string \<rightharpoonup> PushReceipt option) option"
  ReceiptErrors :: "Data list option"

text \<open>
  What the code reads of an \<open>http.Response\<close>: the status code, the status text and the
  body, kept as the bytes received.
\<close>

record http_Response =
  StatusCode :: int
  StatusText :: string
  RespBody :: string

text \<open>
  Go \<open>error\<close> values. \<open>ErrorString\<close> is what \<open>errors.New\<close> and \<open>fmt.Errorf\<close> without
  \<open>%w\<close> build; \<open>WrapError p e\<close> is \<open>fmt.Errorf(p + "%w", e)\<close>; \<open>ServerError\<close> has the
  four fields of the source's struct; \<open>ContextError\<close> is whatever \<open>ctx.Err()\<close> returns
  (\<open>context.Canceled\<close> or \<open>context.DeadlineExceeded\<close>); \<open>TransportError\<close> and
  \<open>DecodeError\<close> are the errors of the HTTP client and of the JSON decoder, opaque to
  this code.
\<close>

datatype error =
    ErrorString string
  | WrapError string error
  | ServerError string "http_Response option" "Response option" "Data list option"
  | ContextError
  | TransportError string
  | DecodeError string

definition NewServerError ::
  "string \<Rightarrow> http_Response option \<Rightarrow> Response option \<Rightarrow> Data list option \<Rightarrow> error" where
  "NewServerError message response responseData errors =
     ServerError message response responseData errors"

record PushResult =
  TicketID :: string
  ResultMessage :: "Message option"
  PushTicket :: "MessageResponse option"
  PushReceipt :: "PushReceipt option"
  ResultError :: "error option"

text \<open>
  A call either returns its results or panics (a nil pointer dereference unwinds the
  whole call: none of these functions recovers).
\<close>

datatype 'a outcome = Panic | Return 'a

section \<open>Tokens\<close>

definition HasPrefix :: "string \<Rightarrow> string \<Rightarrow> bool" where
  "HasPrefix s p = prefix p s"

definition ParseToken :: "string \<Rightarrow> Token option \<times> error option" where
  "ParseToken token =
     (if \<not> HasPrefix token ''ExponentPushToken''
      then (None, Some (ErrorString ErrMsgMalformedToken))
      else (Some token, None))"

definition MustParseToken :: "string \<Rightarrow> Token option" where
  "MustParseToken token = (case ParseToken token of (tkn, _) \<Rightarrow> tkn)"

definition IsPushTokenValid :: "string \<Rightarrow> bool" where
  "IsPushTokenValid token = (case ParseToken token of (_, err) \<Rightarrow> err = None)"

section \<open>Classification of results\<close>

definition IsOk :: "MessageResponse \<Rightarrow> bool" where
  "IsOk r = (Status r = ''ok'')"

definition ReceiptIsOk :: "PushReceipt \<Rightarrow> bool" where
  "ReceiptIsOk r = (ReceiptStatus r = ''ok'')"

definition IsDeviceNotRegistered :: "PushReceipt \<Rightarrow> bool" where
  "IsDeviceNotRegistered r =
     (case ReceiptDetails r of
        None \<Rightarrow> False
      | Some d \<Rightarrow> lookup d ''error'' = ErrorMsgDeviceNotRegistered)"

definition IsSuccessful :: "PushResult \<Rightarrow> bool" where
  "IsSuccessful r =
     (ResultError r = None \<and>
      (case PushTicket r of None \<Rightarrow> False | Some t \<Rightarrow> IsOk t) \<and>
      (case PushReceipt r of None \<Rightarrow> False | Some rc \<Rightarrow> ReceiptIsOk rc))"

definition ShouldRetryToken :: "PushResult \<Rightarrow> bool" where
  "ShouldRetryToken r =
     (case PushReceipt r of
        Some rc \<Rightarrow>
          (case ReceiptDetails rc of
             Some d \<Rightarrow> lookup d ''error'' \<noteq> ErrorMsgDeviceNotRegistered
           | None \<Rightarrow> ResultError r \<noteq> None)
      | None \<Rightarrow> ResultError r \<noteq> None)"

text \<open>The receipt of a result carries the error code \<open>DeviceNotRegistered\<close>.\<close>

definition device_not_registered :: "PushResult \<Rightarrow> bool" where
  "device_not_registered r =
     (case PushReceipt r of None \<Rightarrow> False | Some rc \<Rightarrow> IsDeviceNotRegistered rc)"

definition has_details :: "PushResult \<Rightarrow> bool" where
  "has_details r =
     (case PushReceipt r of None \<Rightarrow> False | Some rc \<Rightarrow> ReceiptDetails rc \<noteq> None)"

section \<open>Formatting\<close>

text \<open>The decimal digits that \<open>%d\<close> prints for an integer.\<close>

fun digits :: "nat \<Rightarrow> string" where
  "digits n = (if n < 10 then [''0123456789'' ! n] else digits (n div 10) @ [''0123456789'' ! (n mod 10)])"

definition fmt_d :: "int \<Rightarrow> string" where
  "fmt_d i = (if i < 0 then CHR ''-'' # digits (nat (- i)) else digits (nat i))"

section \<open>The world outside the client\<close>

text \<open>
  The HTTP client, the JSON decoder and the context with its timers are not code of this
  repository. A run of the client sees them as fixed answers, gathered in \<open>env\<close>:
  \<^item> \<open>send k\<close> is what the \<open>k\<close>-th run (from 0) of the publish request closure returns
    (\<open>NewRequestWithContext\<close> followed by \<open>HttpClient.Do\<close>): a response pointer and an
    error;
  \<^item> \<open>ctx_done_backoff k\<close> tells whether, in the \<open>select\<close> before attempt \<open>k\<close>,
    \<open>ctx.Done()\<close> fires before the backoff timer;
  \<^item> \<open>ctx_done_delay\<close> tells the same for the wait before the receipt fetch;
  \<^item> \<open>fetch ids\<close> is what building and sending the receipt request for \<open>ids\<close> returns;
  \<^item> \<open>decode_send\<close> and \<open>decode_receipts\<close> are \<open>json.NewDecoder(body).Decode\<close> into a
    \<open>*Response\<close> and a \<open>*PushReceiptResponse\<close>: an error, or the pointer decoded, which
    is nil for the JSON text \<open>null\<close>.
  What a call does to that world is returned as a list of events, in order.
\<close>

type_synonym http_result = "http_Response option \<times> error option"

record env =
  send :: "nat \<Rightarrow> http_result"
  ctx_done_backoff :: "int \<Rightarrow> bool"
  ctx_done_delay :: bool
  fetch :: "string list \<Rightarrow> http_result"
  decode_send :: "string \<Rightarrow> error + Response option"
  decode_receipts :: "string \<Rightarrow> error + PushReceiptResponse option"

datatype event =
    Backoff int
  | Invoke
  | Delay int
  | GetReceipts "string list"

definition calls :: "event list \<Rightarrow> nat" where
  "calls evs = length (filter (\<lambda>e. e = Invoke) evs)"

section \<open>Retry\<close>

text \<open>
  The durations are nanoseconds (\<open>time.Duration\<close>, an \<open>int64\<close>). \<open>Multiplier\<close> is a
  \<open>float64\<close> in the source; it is the real number that the \<open>float64\<close> denotes.
\<close>

record RetryConfig =
  MaxRetries :: int
  InitialInterval :: int
  MaxInterval :: int
  Multiplier :: real

definition DefaultRetryConfig :: RetryConfig where
  "DefaultRetryConfig =
     \<lparr>MaxRetries = 3, InitialInterval = 1000000000, MaxInterval = 30000000000, Multiplier = 2\<rparr>"

definition IsRetryableError :: "int \<Rightarrow> bool" where
  "IsRetryableError statusCode =
     (if statusCode = 429 \<or> statusCode = 500 \<or> statusCode = 502 \<or> statusCode = 503
         \<or> statusCode = 504
      then True else False)"

text \<open>
  \<open>ExponentialBackoff\<close> computes in \<open>float64\<close> and converts the product to a
  \<open>time.Duration\<close>. The \<open>float64\<close> operations are taken as exact operations on the reals
  (rounding is left out; it does not occur where the operands and the results are
  representable, as with the default configuration, whose multiplier is 2).
  \<open>math.Pow\<close> at a whole exponent that is not negative is the power. The conversion
  \<open>time.Duration(duration)\<close> drops the fraction (towards zero); when the result does not
  fit an \<open>int64\<close> the language leaves the value to the implementation, and \<open>indefinite\<close>
  is that value. On amd64 it is the smallest \<open>int64\<close>.
\<close>

definition MaxInt64 :: int where
  "MaxInt64 = 9223372036854775807"

definition MinInt64 :: int where
  "MinInt64 = - 9223372036854775808"

definition trunc :: "real \<Rightarrow> int" where
  "trunc x = (if x \<ge> 0 then \<lfloor>x\<rfloor> else \<lceil>x\<rceil>)"

definition Duration_of_float64 :: "int \<Rightarrow> real \<Rightarrow> int" where
  "Duration_of_float64 indefinite x =
     (if MinInt64 \<le> trunc x \<and> trunc x \<le> MaxInt64 then trunc x else indefinite)"

definition amd64_indefinite :: int where
  "amd64_indefinite = MinInt64"

definition ExponentialBackoff :: "int \<Rightarrow> RetryConfig \<Rightarrow> int \<Rightarrow> int" where
  "ExponentialBackoff indefinite c attempt =
     (if attempt \<le> 0 then InitialInterval c
      else
        (let duration = real_of_int (InitialInterval c) * Multiplier c ^ nat (attempt - 1);
             backoff = Duration_of_float64 indefinite duration
         in if backoff > MaxInterval c then MaxInterval c else backoff))"

text \<open>
  The loop of \<open>WithRetry\<close> as \<open>publish\<close> runs it, from attempt \<open>attempt\<close> on, with the
  error recorded so far. The action is the request closure: its responses are those of
  \<open>http.Client.Do\<close>, which have a body whenever the error is nil, so that
  \<open>resp.Body.Close()\<close> returns. (The loop for any action, whose responses may have a nil
  body, is \<open>WithRetry_action_loop\<close> below; on an action of this kind the two agree.)
  Every attempt that gets past its wait runs the action once, so the run of the action in
  attempt \<open>k\<close> is its \<open>k\<close>-th run and \<open>fn\<close> is read at \<open>k\<close>. The length of the wait, which
  \<open>ExponentialBackoff\<close> gives, only sets the timer that \<open>ctx.Done()\<close> races against:
  \<open>done\<close> tells who wins. The attempt counter is a Go \<open>int\<close>; it is unbounded here, as
  it is in every run with \<open>MaxRetries\<close> below the largest \<open>int\<close>.
\<close>

function WithRetry_loop ::
  "RetryConfig \<Rightarrow> (int \<Rightarrow> bool) \<Rightarrow> (nat \<Rightarrow> http_result) \<Rightarrow> int \<Rightarrow> error option
     \<Rightarrow> http_result \<times> event list" where
  "WithRetry_loop retryConfig done fn attempt lastErr =
     (if attempt \<le> MaxRetries retryConfig then
        (if attempt > 0 \<and> done attempt then ((None, Some ContextError), [Backoff attempt])
         else
           (let waited = (if attempt > 0 then [Backoff attempt] else []) in
            (case fn (nat attempt) of
               (resp, Some e) \<Rightarrow>
                 apsnd (\<lambda>evs. waited @ Invoke # evs)
                   (WithRetry_loop retryConfig done fn (attempt + 1) (Some e))
             | (Some r, None) \<Rightarrow>
                 (if IsRetryableError (StatusCode r) then
                    apsnd (\<lambda>evs. waited @ Invoke # evs)
                      (WithRetry_loop retryConfig done fn (attempt + 1)
                         (Some (ServerError ''retryable error'' (Some r) None None)))
                  else ((Some r, None), waited @ [Invoke]))
             | (None, None) \<Rightarrow> ((None, None), waited @ [Invoke]))))
      else ((None, lastErr), []))"
  by pat_completeness auto
termination
  by (relation "measure (\<lambda>(retryConfig, done, fn, attempt, lastErr).
        nat (MaxRetries retryConfig + 1 - attempt))") auto

definition WithRetry ::
  "RetryConfig option \<Rightarrow> (int \<Rightarrow> bool) \<Rightarrow> (nat \<Rightarrow> http_result) \<Rightarrow> http_result \<times> event list" where
  "WithRetry retryConfig done fn =
     WithRetry_loop (case retryConfig of None \<Rightarrow> DefaultRetryConfig | Some rc \<Rightarrow> rc)
       done fn 0 None"

text \<open>
  What one run of the action means to the loop: \<open>retryable\<close> holds when the loop goes on
  to another attempt after it (a non-nil error, or a response with a retryable status),
  and \<open>recorded\<close> is the value of \<open>lastErr\<close> the loop holds after it.
\<close>

definition retryable :: "http_result \<Rightarrow> bool" where
  "retryable res =
     (case res of
        (_, Some e) \<Rightarrow> True
      | (Some r, None) \<Rightarrow> IsRetryableError (StatusCode r)
      | (None, None) \<Rightarrow> False)"

definition recorded :: "http_result \<Rightarrow> error option" where
  "recorded res =
     (case res of
        (_, Some e) \<Rightarrow> Some e
      | (Some r, None) \<Rightarrow>
          (if IsRetryableError (StatusCode r)
           then Some (ServerError ''retryable error'' (Some r) None None) else None)
      | (None, None) \<Rightarrow> None)"

section \<open>Retry, for any action\<close>

text \<open>
  \<open>WithRetry\<close> is exported and takes any action. The response such an action returns
  may have a nil \<open>Body\<close> (\<open>ActionBody = None\<close>); on a retryable status the loop calls
  \<open>resp.Body.Close()\<close>, which panics on a nil \<open>Body\<close>. A response that is returned to
  the caller is not closed.
\<close>

record action_Response =
  ActionStatusCode :: int
  ActionStatus :: string
  ActionBody :: "string option"

type_synonym action_result = "action_Response option \<times> error option"

definition with_body :: "http_Response \<Rightarrow> action_Response" where
  "with_body r =
     \<lparr>ActionStatusCode = StatusCode r, ActionStatus = StatusText r, ActionBody = Some (RespBody r)\<rparr>"

text \<open>The result of an action that keeps the contract of \<open>http.Client.Do\<close>.\<close>

definition Do :: "http_result \<Rightarrow> action_result" where
  "Do res = (case res of (resp, err) \<Rightarrow> (map_option with_body resp, err))"

function WithRetry_action_loop ::
  "RetryConfig \<Rightarrow> (int \<Rightarrow> bool) \<Rightarrow> (nat \<Rightarrow> action_result) \<Rightarrow> int \<Rightarrow> error option
     \<Rightarrow> action_result outcome \<times> event list" where
  "WithRetry_action_loop retryConfig done fn attempt lastErr =
     (if attempt \<le> MaxRetries retryConfig then
        (if attempt > 0 \<and> done attempt
         then (Return (None, Some ContextError), [Backoff attempt])
         else
           (let waited = (if attempt > 0 then [Backoff attempt] else []) in
            (case fn (nat attempt) of
               (resp, Some e) \<Rightarrow>
                 apsnd (\<lambda>evs. waited @ Invoke # evs)
                   (WithRetry_action_loop retryConfig done fn (attempt + 1) (Some e))
             | (Some r, None) \<Rightarrow>
                 (if IsRetryableError (ActionStatusCode r) then
                    (case ActionBody r of
                       None \<Rightarrow> (Panic, waited @ [Invoke])
                     | Some b \<Rightarrow>
                         apsnd (\<lambda>evs. waited @ Invoke # evs)
                           (WithRetry_action_loop retryConfig done fn (attempt + 1)
                              (Some (ServerError ''retryable error''
                                 (Some \<lparr>StatusCode = ActionStatusCode r,
                                         StatusText = ActionStatus r, RespBody = b\<rparr>)
                                 None None))))
                  else (Return (Some r, None), waited @ [Invoke]))
             | (None, None) \<Rightarrow> (Return (None, None), waited @ [Invoke]))))
      else (Return (None, lastErr), []))"
  by pat_completeness auto
termination
  by (relation "measure (\<lambda>(retryConfig, done, fn, attempt, lastErr).
        nat (MaxRetries retryConfig + 1 - attempt))") auto

definition WithRetry_action ::
  "RetryConfig option \<Rightarrow> (int \<Rightarrow> bool) \<Rightarrow> (nat \<Rightarrow> action_result)
     \<Rightarrow> action_result outcome \<times> event list" where
  "WithRetry_action retryConfig done fn =
     WithRetry_action_loop (case retryConfig of None \<Rightarrow> DefaultRetryConfig | Some rc \<Rightarrow> rc)
       done fn 0 None"

text \<open>
  What one run of an action means to the loop: \<open>retryable_action\<close> holds when the run
  returned a non-nil error or a response with a retryable status; \<open>closes\<close> holds unless
  the loop would close a nil body after it; \<open>recorded_action\<close> is the value of \<open>lastErr\<close>
  the loop holds after it.
\<close>

definition retryable_action :: "action_result \<Rightarrow> bool" where
  "retryable_action res =
     (case res of
        (_, Some e) \<Rightarrow> True
      | (Some r, None) \<Rightarrow> IsRetryableError (ActionStatusCode r)
      | (None, None) \<Rightarrow> False)"

definition closes :: "action_result \<Rightarrow> bool" where
  "closes res =
     (case res of
        (_, Some e) \<Rightarrow> True
      | (Some r, None) \<Rightarrow> IsRetryableError (ActionStatusCode r) \<longrightarrow> ActionBody r \<noteq> None
      | (None, None) \<Rightarrow> True)"

definition recorded_action :: "action_result \<Rightarrow> error option" where
  "recorded_action res =
     (case res of
        (_, Some e) \<Rightarrow> Some e
      | (Some r, None) \<Rightarrow>
          (if IsRetryableError (ActionStatusCode r)
           then (case ActionBody r of
                   None \<Rightarrow> None
                 | Some b \<Rightarrow>
                     Some (ServerError ''retryable error''
                       (Some \<lparr>StatusCode = ActionStatusCode r, StatusText = ActionStatus r,
                               RespBody = b\<rparr>) None None))
           else None)
      | (None, None) \<Rightarrow> None)"

section \<open>Publishing\<close>

text \<open>
  Of the client's \<open>Config\<close>, \<open>HttpClient\<close> is the \<open>send\<close> and \<open>fetch\<close> of \<open>env\<close>. The other
  fields but \<open>RetryConfig\<close> only shape the request (URL, headers, compression), which
  \<open>env\<close> answers whatever it holds. \<open>NewClient\<close> leaves neither the configuration nor
  its HTTP client nil.
\<close>

record Config =
  Host :: string
  ApiURL :: string
  AccessToken :: string
  EnableGzip :: bool
  RetryConfig :: "RetryConfig option"

definition checkStatus :: "http_Response \<Rightarrow> error option" where
  "checkStatus resp =
     (if StatusCode resp \<ge> 200 \<and> StatusCode resp \<le> 299 then None
      else Some (ErrorString (''invalid response ('' @ fmt_d (StatusCode resp) @ '' ''
                   @ StatusText resp @ '')'')))"

text \<open>The inner validation loop of \<open>publish\<close>, over the recipients of one message.\<close>

fun check_recipients :: "Token option list \<Rightarrow> error option" where
  "check_recipients [] = None"
| "check_recipients (recipient # rest) =
     (if recipient = None \<or> recipient = Some []
      then Some (ErrorString ''invalid push token'')
      else check_recipients rest)"

text \<open>
  The outer validation loop. A nil message pointer in the batch is dereferenced by
  \<open>message.To\<close>.
\<close>

fun validate :: "Message option list \<Rightarrow> error option outcome" where
  "validate [] = Return None"
| "validate (None # rest) = Panic"
| "validate (Some message # rest) =
     (if length (To message) = 0 then Return (Some (ErrorString ''no recipients''))
      else (case check_recipients (To message) of
              Some e \<Rightarrow> Return (Some e)
            | None \<Rightarrow> validate rest))"

definition maxNotificationsPerRequest :: nat where
  "maxNotificationsPerRequest = 100"

text \<open>The expansion loop: every message pointer once per recipient, in order.\<close>

fun expandedMessages :: "Message option list \<Rightarrow> Message option list outcome" where
  "expandedMessages [] = Return []"
| "expandedMessages (None # rest) = Panic"
| "expandedMessages (Some msg # rest) =
     (case expandedMessages rest of
        Panic \<Rightarrow> Panic
      | Return expanded \<Rightarrow> Return (replicate (length (To msg)) (Some msg) @ expanded))"

text \<open>
  The last loop of \<open>publish\<close>: \<open>r.Data[i].MessageItem = expandedMessages[i]\<close>, which
  dereferences the \<open>i\<close>-th ticket pointer and indexes the expansion.
\<close>

fun assign_messages ::
  "MessageResponse option list \<Rightarrow> Message option list \<Rightarrow> MessageResponse list outcome" where
  "assign_messages [] expanded = Return []"
| "assign_messages (None # rest) expanded = Panic"
| "assign_messages (Some ticket # rest) [] = Panic"
| "assign_messages (Some ticket # rest) (m # expanded) =
     (case assign_messages rest expanded of
        Panic \<Rightarrow> Panic
      | Return tickets \<Rightarrow> Return (ticket\<lparr>MessageItem := m\<rparr> # tickets))"

definition mismatch_message :: "nat \<Rightarrow> nat \<Rightarrow> string" where
  "mismatch_message expected received =
     ''mismatched response length. Expected '' @ fmt_d (int expected)
       @ '' receipts but only received '' @ fmt_d (int received)"

text \<open>
  \<open>publish\<close> returns a slice of tickets and an error; the slice is \<open>None\<close> where the
  source returns nil. \<open>json.Marshal\<close> of a batch and the gzip writer on a buffer do not
  fail. The deferred \<open>resp.Body.Close()\<close> reads \<open>resp.Body\<close> at once, so a nil response
  with a nil error panics there; so does \<open>r.Errors\<close> for a body that decoded to nil.
\<close>

definition publish ::
  "env \<Rightarrow> Config \<Rightarrow> Message option list
     \<Rightarrow> (MessageResponse list option \<times> error option) outcome \<times> event list" where
  "publish e cnf msgs =
     (case validate msgs of
        Panic \<Rightarrow> (Panic, [])
      | Return (Some err) \<Rightarrow> (Return (None, Some err), [])
      | Return None \<Rightarrow>
          if length msgs > maxNotificationsPerRequest
          then (Return (None, Some (ErrorString (''too many notifications: ''
                   @ fmt_d (int (length msgs)) @ '' (maximum is ''
                   @ fmt_d (int maxNotificationsPerRequest) @ '')''))), [])
          else
            (case WithRetry (RetryConfig cnf) (ctx_done_backoff e) (send e) of
               ((_, Some err), evs) \<Rightarrow> (Return (None, Some err), evs)
             | ((None, None), evs) \<Rightarrow> (Panic, evs)
             | ((Some resp, None), evs) \<Rightarrow>
                 (case checkStatus resp of
                    Some err \<Rightarrow> (Return (None, Some err), evs)
                  | None \<Rightarrow>
                      (case decode_send e (RespBody resp) of
                         Inl err \<Rightarrow> (Return (None, Some err), evs)
                       | Inr None \<Rightarrow> (Panic, evs)
                       | Inr (Some r) \<Rightarrow>
                           if RespErrors r \<noteq> None
                           then (Return (None, Some (ErrorString ''invalid request'')), evs)
                           else
                             (case RespData r of
                                None \<Rightarrow>
                                  (Return (None, Some (NewServerError ''invalid server response''
                                     (Some resp) (Some r) None)), evs)
                              | Some data \<Rightarrow>
                                  (case expandedMessages msgs of
                                     Panic \<Rightarrow> (Panic, evs)
                                   | Return expanded \<Rightarrow>
                                       if length expanded \<noteq> length data
                                       then (Return (None, Some (NewServerError
                                               (mismatch_message (length expanded) (length data))
                                               (Some resp) (Some r) None)), evs)
                                       else
                                         (case assign_messages data expanded of
                                            Panic \<Rightarrow> (Panic, evs)
                                          | Return tickets \<Rightarrow>
                                              (Return (Some tickets, None), evs))))))))"

definition Publish ::
  "env \<Rightarrow> Config \<Rightarrow> Message option list
     \<Rightarrow> (MessageResponse list option \<times> error option) outcome \<times> event list" where
  "Publish e cnf msgs = publish e cnf msgs"

section \<open>Receipts\<close>

definition maxReceiptsPerRequest :: nat where
  "maxReceiptsPerRequest = 1000"

definition GetPushReceipts ::
  "env \<Rightarrow> Config \<Rightarrow> string list
     \<Rightarrow> ((string \<rightharpoonup> PushReceipt option) option \<times> error option) outcome \<times> event list" where
  "GetPushReceipts e cnf ticketIDs =
     (if length ticketIDs = 0 then (Return (Some Map.empty, None), [])
      else if length ticketIDs > maxReceiptsPerRequest
      then (Return (None, Some (ErrorString (''too many ticket IDs: ''
               @ fmt_d (int (length ticketIDs)) @ '' (maximum is ''
               @ fmt_d (int maxReceiptsPerRequest) @ '')''))), [])
      else
        (case fetch e ticketIDs of
           (_, Some err) \<Rightarrow> (Return (None, Some err), [GetReceipts ticketIDs])
         | (None, None) \<Rightarrow> (Panic, [GetReceipts ticketIDs])
         | (Some resp, None) \<Rightarrow>
             (case checkStatus resp of
                Some err \<Rightarrow> (Return (None, Some err), [GetReceipts ticketIDs])
              | None \<Rightarrow>
                  (case decode_receipts e (RespBody resp) of
                     Inl err \<Rightarrow> (Return (None, Some err), [GetReceipts ticketIDs])
                   | Inr None \<Rightarrow> (Panic, [GetReceipts ticketIDs])
                   | Inr (Some receiptResp) \<Rightarrow>
                       if ReceiptErrors receiptResp \<noteq> None
                       then (Return (None, Some (NewServerError ''error fetching receipts''
                               (Some resp) None (ReceiptErrors receiptResp))),
                             [GetReceipts ticketIDs])
                       else (Return (ReceiptData receiptResp, None),
                             [GetReceipts ticketIDs])))))"

text \<open>
  Step 2 of \<open>SendPushNotificationsWithReceipts\<close>. \<open>eligible\<close> is the test of the loop
  body, \<open>ticket_result\<close> the result it builds for a ticket, and \<open>collect_ticket\<close> one
  pass of the body on the identifiers and the results collected so far.
\<close>

definition eligible :: "MessageResponse \<Rightarrow> bool" where
  "eligible response = (IsOk response \<and> ID response \<noteq> [])"

definition ticket_result :: "MessageResponse \<Rightarrow> PushResult" where
  "ticket_result response =
     (let result = \<lparr>TicketID = [], ResultMessage = MessageItem response,
                     PushTicket = Some response, PushReceipt = None, ResultError = None\<rparr>
      in if eligible response then result\<lparr>TicketID := ID response\<rparr>
         else result\<lparr>ResultError :=
                Some (ErrorString (''push ticket error: '' @ Message response))\<rparr>)"

definition collect_ticket ::
  "string list \<times> PushResult list \<Rightarrow> MessageResponse \<Rightarrow> string list \<times> PushResult list" where
  "collect_ticket acc response =
     (case acc of (ticketIDs, results) \<Rightarrow>
        ((if eligible response then ticketIDs @ [ID response] else ticketIDs),
         results @ [ticket_result response]))"

definition collect_tickets :: "MessageResponse list \<Rightarrow> string list \<times> PushResult list" where
  "collect_tickets responses = foldl collect_ticket ([], []) responses"

text \<open>
  Step 5: the receipts are matched to the results in order. A receipt pointer that is
  present in the map and nil is dereferenced by \<open>receipt.IsOk()\<close>.
\<close>

fun match_receipts ::
  "(string \<rightharpoonup> PushReceipt option) option \<Rightarrow> PushResult list \<Rightarrow> PushResult list outcome" where
  "match_receipts receipts [] = Return []"
| "match_receipts receipts (result # rest) =
     (if TicketID result \<noteq> [] then
        (case (case receipts of None \<Rightarrow> None | Some m \<Rightarrow> m (TicketID result)) of
           None \<Rightarrow>
             (case match_receipts receipts rest of
                Panic \<Rightarrow> Panic | Return rs \<Rightarrow> Return (result # rs))
         | Some None \<Rightarrow> Panic
         | Some (Some receipt) \<Rightarrow>
             (case match_receipts receipts rest of
                Panic \<Rightarrow> Panic
              | Return rs \<Rightarrow>
                  Return ((if \<not> ReceiptIsOk receipt
                           then result\<lparr>PushReceipt := Some receipt,
                                  ResultError := Some (ErrorString (''push receipt error: ''
                                    @ ReceiptMessage receipt))\<rparr>
                           else result\<lparr>PushReceipt := Some receipt\<rparr>) # rs)))
      else
        (case match_receipts receipts rest of
           Panic \<Rightarrow> Panic | Return rs \<Rightarrow> Return (result # rs)))"

definition defaultReceiptDelay :: int where
  "defaultReceiptDelay = 15 * 60 * 1000000000"

definition SendPushNotificationsWithReceipts ::
  "env \<Rightarrow> Config \<Rightarrow> Message option list \<Rightarrow> int
     \<Rightarrow> (PushResult list option \<times> error option) outcome \<times> event list" where
  "SendPushNotificationsWithReceipts e cnf messages receiptDelay =
     (case Publish e cnf messages of
        (Panic, evs) \<Rightarrow> (Panic, evs)
      | (Return (_, Some err), evs) \<Rightarrow>
          (Return (None, Some (WrapError ''failed to send push notifications: '' err)), evs)
      | (Return (None, None), evs) \<Rightarrow> (Return (Some [], None), evs)
      | (Return (Some responses, None), evs) \<Rightarrow>
          (case collect_tickets responses of (ticketIDs, results) \<Rightarrow>
             (let delay = (if receiptDelay = 0 then defaultReceiptDelay else receiptDelay) in
              if length ticketIDs = 0 then (Return (Some results, None), evs)
              else if ctx_done_delay e
              then (Return (Some results, Some ContextError), evs @ [Delay delay])
              else
                (case GetPushReceipts e cnf ticketIDs of (fetched, evs') \<Rightarrow>
                   ((case fetched of
                       Panic \<Rightarrow> Panic
                     | Return (_, Some err) \<Rightarrow>
                         Return (Some results,
                           Some (WrapError ''failed to fetch push receipts: '' err))
                     | Return (receipts, None) \<Rightarrow>
                         (case match_receipts receipts results of
                            Panic \<Rightarrow> Panic
                          | Return matched \<Rightarrow> Return (Some matched, None))),
                    evs @ Delay delay # evs')))))"

section \<open>Example values\<close>

definition msg0 :: Message where
  "msg0 = \<lparr>To = [], Title = [], Body = [], Data = None, Sound = [], TTL = 0, Expiration = 0,
            Priority = [], Badge = 0, ChannelID = [], Subtitle = [], InterruptionLevel = [],
            MutableContent = False, ContentAvailable = False, Icon = [], RichContent = None,
            CategoryID = []\<rparr>"

definition msgA :: Message where
  "msgA = msg0\<lparr>To := [Some ''ExponentPushToken[a]''], Title := ''Hello''\<rparr>"

definition msgAB :: Message where
  "msgAB = msg0\<lparr>To := [Some ''ExponentPushToken[a]'', Some ''ExponentPushToken[b]''],
                 Title := ''Hello''\<rparr>"

definition msgMalformed :: Message where
  "msgMalformed = msg0\<lparr>To := [Some ''abc'']\<rparr>"

definition msgEmptyToken :: Message where
  "msgEmptyToken = msg0\<lparr>To := [Some ''ExponentPushToken[a]'', Some []]\<rparr>"

definition ticket :: "string \<Rightarrow> string \<Rightarrow> string \<Rightarrow> MessageResponse" where
  "ticket i st m = \<lparr>MessageItem = None, ID = i, Status = st, Message = m, Details = None\<rparr>"

definition response :: "int \<Rightarrow> string \<Rightarrow> http_Response" where
  "response code text = \<lparr>StatusCode = code, StatusText = text, RespBody = ''body''\<rparr>"

text \<open>
  A server that answers every publish request with status 200 and a body that decodes to
  \<open>reply\<close>; the context is never done; the receipt endpoint cannot be reached.
\<close>

definition server :: "Response option \<Rightarrow> env" where
  "server reply =
     \<lparr>send = (\<lambda>k. (Some (response 200 ''200 OK''), None)),
      ctx_done_backoff = (\<lambda>k. False),
      ctx_done_delay = False,
      fetch = (\<lambda>ids. (None, Some (TransportError ''connection refused''))),
      decode_send = (\<lambda>b. Inr reply),
      decode_receipts = (\<lambda>b. Inl (DecodeError ''unexpected end of JSON input''))\<rparr>"

definition replyOne :: Response where
  "replyOne = \<lparr>RespData = Some [Some (ticket ''t1'' ''ok'' [])], RespErrors = None\<rparr>"

definition replyTwo :: Response where
  "replyTwo = \<lparr>RespData = Some [Some (ticket ''t1'' ''ok'' []), Some (ticket ''t2'' ''ok'' [])],
                RespErrors = None\<rparr>"

definition replyMixed :: Response where
  "replyMixed =
     \<lparr>RespData = Some [Some (ticket ''t1'' ''ok'' []),
                        Some (ticket [] ''error'' ''not a registered recipient'')],
      RespErrors = None\<rparr>"

definition replyErrorWithID :: Response where
  "replyErrorWithID =
     \<lparr>RespData = Some [Some (ticket ''abc'' ''error'' ''boom'')], RespErrors = None\<rparr>"

definition replyRejected :: Response where
  "replyRejected =
     \<lparr>RespData = Some [Some (ticket [] ''error'' ''not a registered recipient'')],
      RespErrors = None\<rparr>"

definition cnf0 :: Config where
  "cnf0 = \<lparr>Host = ''https://exp.host'', ApiURL = ''/--/api/v2'', AccessToken = [],
            EnableGzip = False, RetryConfig = Some DefaultRetryConfig\<rparr>"

definition result0 :: PushResult where
  "result0 = \<lparr>TicketID = ''t1'', ResultMessage = Some msgA,
               PushTicket = Some (ticket ''t1'' ''ok'' []), PushReceipt = None,
               ResultError = None\<rparr>"

definition receipt :: "string \<Rightarrow> Data option \<Rightarrow> PushReceipt" where
  "receipt st d = \<lparr>ReceiptStatus = st, ReceiptMessage = [], ReceiptDetails = d\<rparr>"

text \<open>An action that fails to connect, then gets a 503, then a 200.\<close>

definition flaky :: "nat \<Rightarrow> http_result" where
  "flaky k =
     (if k = 0 then (None, Some (TransportError ''connection reset''))
      else if k = 1 then (Some (response 503 ''503 Service Unavailable''), None)
      else (Some (response 200 ''200 OK''), None))"

definition unreachable :: "nat \<Rightarrow> http_result" where
  "unreachable k = (None, Some (TransportError ''connection refused''))"

section \<open>Tokens: what \<open>ParseToken\<close> and \<open>MustParseToken\<close> give for a malformed string\<close>

text \<open>
  C10. For every string that does not start with \<open>ExponentPushToken\<close>, \<open>MustParseToken\<close>
  returns the nil token (it has no error result and no panicking path), and
  \<open>ParseToken\<close> returns no token and the malformed-token error.
\<close>

theorem MustParseToken_malformed:
  "\<not> prefix ''ExponentPushToken'' s \<Longrightarrow>
   MustParseToken s = None \<and>
   ParseToken s = (None, Some (ErrorString ''token should start with ExponentPushToken''))"
  by (simp add: MustParseToken_def ParseToken_def HasPrefix_def ErrMsgMalformedToken_def)

theorem MustParseToken_malformed_witness:
  "\<not> prefix ''ExponentPushToken'' ''abc'' \<and> MustParseToken ''abc'' = None \<and>
   ParseToken ''abc'' = (None, Some (ErrorString ''token should start with ExponentPushToken''))"
proof -
  have h: "\<not> prefix ''ExponentPushToken'' ''abc''" by simp
  from h MustParseToken_malformed [OF h] show ?thesis by simp
qed

section \<open>Classification\<close>

text \<open>
  C5, as stated, fails. A delivered result (no error, receipt \<open>ok\<close> without details)
  has \<open>ShouldRetryToken\<close> false although its receipt does not carry
  \<open>DeviceNotRegistered\<close>: false is also the answer of the fallback \<open>r.Error != nil\<close> for
  a result without error.
\<close>

theorem ShouldRetryToken_counterexample:
  "ShouldRetryToken (result0\<lparr>PushReceipt := Some (receipt ''ok'' None)\<rparr>) = False \<and>
   device_not_registered (result0\<lparr>PushReceipt := Some (receipt ''ok'' None)\<rparr>) = False \<and>
   ResultError (result0\<lparr>PushReceipt := Some (receipt ''ok'' None)\<rparr>) = None"
  by (simp add: ShouldRetryToken_def device_not_registered_def IsDeviceNotRegistered_def
      result0_def receipt_def)

text \<open>
  C5, amended. \<open>ShouldRetryToken\<close> is false for every result whose receipt carries
  \<open>DeviceNotRegistered\<close>, and true for every result that has an error and whose receipt
  is absent or carries anything else; for a result that has no error it is false when
  no receipt with a details map is present. (What it answers for a result without error
  whose receipt has a details map with another code is left open here.)
\<close>

theorem ShouldRetryToken_classifies:
  "(device_not_registered r \<longrightarrow> \<not> ShouldRetryToken r) \<and>
   (ResultError r \<noteq> None \<and> \<not> device_not_registered r \<longrightarrow> ShouldRetryToken r) \<and>
   (ResultError r = None \<and> \<not> has_details r \<longrightarrow> \<not> ShouldRetryToken r)"
  by (auto simp: ShouldRetryToken_def device_not_registered_def has_details_def
      IsDeviceNotRegistered_def split: option.splits)

theorem ShouldRetryToken_classifies_witness:
  "device_not_registered
     (result0\<lparr>PushReceipt := Some (receipt ''error'' (Some [''error'' \<mapsto> ''DeviceNotRegistered''])),
              ResultError := Some (ErrorString ''push receipt error: '')\<rparr>) \<and>
   \<not> ShouldRetryToken
     (result0\<lparr>PushReceipt := Some (receipt ''error'' (Some [''error'' \<mapsto> ''DeviceNotRegistered''])),
              ResultError := Some (ErrorString ''push receipt error: '')\<rparr>) \<and>
   ResultError (result0\<lparr>ResultError := Some (ErrorString ''push ticket error: '')\<rparr>) \<noteq> None \<and>
   \<not> device_not_registered (result0\<lparr>ResultError := Some (ErrorString ''push ticket error: '')\<rparr>) \<and>
   ShouldRetryToken (result0\<lparr>ResultError := Some (ErrorString ''push ticket error: '')\<rparr>) \<and>
   ResultError result0 = None \<and> \<not> has_details result0 \<and> \<not> ShouldRetryToken result0"
proof -
  let ?gone = "result0\<lparr>PushReceipt := Some (receipt ''error'' (Some [''error'' \<mapsto> ''DeviceNotRegistered''])),
                       ResultError := Some (ErrorString ''push receipt error: '')\<rparr>"
  let ?failed = "result0\<lparr>ResultError := Some (ErrorString ''push ticket error: '')\<rparr>"
  have g: "device_not_registered ?gone"
    by (simp add: device_not_registered_def IsDeviceNotRegistered_def result0_def receipt_def
        lookup_def ErrorMsgDeviceNotRegistered_def)
  have f: "ResultError ?failed \<noteq> None \<and> \<not> device_not_registered ?failed"
    by (simp add: device_not_registered_def result0_def)
  have p: "ResultError result0 = None \<and> \<not> has_details result0"
    by (simp add: has_details_def result0_def)
  from g f p ShouldRetryToken_classifies [of ?gone] ShouldRetryToken_classifies [of ?failed]
    ShouldRetryToken_classifies [of result0]
  show ?thesis by blast
qed

section \<open>Retry: how often \<open>WithRetry\<close> runs its action, and what it returns\<close>

lemma calls_simps [simp]:
  "calls [] = 0" "calls (Invoke # evs) = Suc (calls evs)" "calls (Backoff k # evs) = calls evs"
  "calls (Delay d # evs) = calls evs" "calls (GetReceipts ids # evs) = calls evs"
  "calls (xs @ ys) = calls xs + calls ys"
  by (simp_all add: calls_def)

declare WithRetry_loop.simps [simp del]

text \<open>One turn of the loop, in terms of \<open>retryable\<close> and \<open>recorded\<close>.\<close>

lemma loop_unfold:
  "WithRetry_loop rc done fn a le =
     (if a \<le> MaxRetries rc then
        if a > 0 \<and> done a then ((None, Some ContextError), [Backoff a])
        else if retryable (fn (nat a)) then
          apsnd (\<lambda>evs. (if a > 0 then [Backoff a] else []) @ Invoke # evs)
            (WithRetry_loop rc done fn (a + 1) (recorded (fn (nat a))))
        else (fn (nat a), (if a > 0 then [Backoff a] else []) @ [Invoke])
      else ((None, le), []))"
  by (subst WithRetry_loop.simps)
     (auto simp: retryable_def recorded_def Let_def split: prod.splits option.splits)


declare WithRetry_action_loop.simps [simp del]

text \<open>One turn of the loop for any action, when the run of this turn closes.\<close>

lemma action_loop_unfold:
  assumes "\<forall>k. closes (fn k)"
  shows "WithRetry_action_loop rc done fn a le =
     (if a \<le> MaxRetries rc then
        if a > 0 \<and> done a then (Return (None, Some ContextError), [Backoff a])
        else if retryable_action (fn (nat a)) then
          apsnd (\<lambda>evs. (if a > 0 then [Backoff a] else []) @ Invoke # evs)
            (WithRetry_action_loop rc done fn (a + 1) (recorded_action (fn (nat a))))
        else (Return (fn (nat a)), (if a > 0 then [Backoff a] else []) @ [Invoke])
      else (Return (None, le), []))"
proof -
  from assms have "closes (fn (nat a))" by simp
  then show ?thesis
    by (subst WithRetry_action_loop.simps)
       (auto simp: retryable_action_def recorded_action_def closes_def Let_def
          split: prod.splits option.splits)
qed

lemma action_calls:
  assumes "\<forall>k. closes (fn k)"
  shows "calls (snd (WithRetry_action_loop rc done fn a le)) =
     (if a \<le> MaxRetries rc \<and> \<not> (a > 0 \<and> done a) then
        Suc (if retryable_action (fn (nat a))
             then calls (snd (WithRetry_action_loop rc done fn (a + 1)
                                (recorded_action (fn (nat a))))) else 0)
      else 0)"
  by (subst action_loop_unfold [OF assms])
     (simp add: apsnd_def map_prod_def split: prod.splits)

lemma action_calls_le:
  assumes "\<forall>k. closes (fn k)"
  shows "int (calls (snd (WithRetry_action_loop rc done fn a le)))
           \<le> max 0 (MaxRetries rc + 1 - a)"
proof (induction "nat (MaxRetries rc + 1 - a)" arbitrary: a le)
  case 0
  then show ?case by (subst action_calls [OF assms]) auto
next
  case (Suc n)
  have "n = nat (MaxRetries rc + 1 - (a + 1))" using Suc.hyps(2) by linarith
  from Suc.hyps(1) [OF this]
  have "int (calls (snd (WithRetry_action_loop rc done fn (a + 1)
                           (recorded_action (fn (nat a))))))
          \<le> max 0 (MaxRetries rc + 1 - (a + 1))" .
  then show ?case by (subst action_calls [OF assms]) auto
qed

lemma action_returns:
  assumes "\<forall>k. closes (fn k)"
  shows "\<exists>res. fst (WithRetry_action_loop rc done fn a le) = Return res"
proof (induction "nat (MaxRetries rc + 1 - a)" arbitrary: a le)
  case 0
  from 0 show ?case by (subst action_loop_unfold [OF assms]) auto
next
  case (Suc n)
  have "n = nat (MaxRetries rc + 1 - (a + 1))" using Suc.hyps(2) by linarith
  from Suc.hyps(1) [OF this, of "recorded_action (fn (nat a))"]
  obtain res where
    "fst (WithRetry_action_loop rc done fn (a + 1) (recorded_action (fn (nat a)))) = Return res"
    by blast
  then show ?case
    by (subst action_loop_unfold [OF assms]) (auto simp: apsnd_def map_prod_def split: prod.splits)
qed

lemma action_next:
  assumes "\<forall>k. closes (fn k)"
  shows "0 \<le> a \<Longrightarrow>
   Suc j < calls (snd (WithRetry_action_loop rc done fn a le)) \<longleftrightarrow>
     j < calls (snd (WithRetry_action_loop rc done fn a le)) \<and>
     retryable_action (fn (nat a + j)) \<and>
     a + int j + 1 \<le> MaxRetries rc \<and> \<not> done (a + int j + 1)"
proof (induction j arbitrary: a le)
  case 0
  note C = action_calls [OF assms]
  show ?case
    using 0 by (subst (1 2) C, subst (1 2) C) auto
next
  case (Suc j)
  note C = action_calls [OF assms]
  have a1: "0 \<le> a + 1" using Suc.prems by simp
  have n: "nat (a + 1) + j = nat a + Suc j" using Suc.prems by linarith
  note IH = Suc.IH [OF a1, of "recorded_action (fn (nat a))", unfolded n]
  show ?case
    using IH by (subst (1 2) C) (auto simp: algebra_simps)
qed

lemma action_stop:
  assumes "\<forall>k. closes (fn k)"
  shows "0 \<le> a \<Longrightarrow> j < calls (snd (WithRetry_action_loop rc done fn a le)) \<Longrightarrow>
   \<not> retryable_action (fn (nat a + j)) \<Longrightarrow>
   fst (WithRetry_action_loop rc done fn a le) = Return (fn (nat a + j)) \<and>
   calls (snd (WithRetry_action_loop rc done fn a le)) = Suc j"
proof (induction j arbitrary: a le)
  case 0
  note C = action_calls [OF assms]
  from 0(2) have g: "a \<le> MaxRetries rc \<and> \<not> (a > 0 \<and> done a)"
    by (subst (asm) C) (auto split: if_splits)
  show ?case using 0(3) g by (subst action_loop_unfold [OF assms], subst C) auto
next
  case (Suc j)
  note C = action_calls [OF assms]
  from Suc.prems(2)
  have g: "a \<le> MaxRetries rc \<and> \<not> (a > 0 \<and> done a) \<and> retryable_action (fn (nat a))"
    and n: "j < calls (snd (WithRetry_action_loop rc done fn (a + 1)
                              (recorded_action (fn (nat a)))))"
    by (subst (asm) C, auto split: if_splits)+
  have a1: "0 \<le> a + 1" using Suc.prems by simp
  have e: "nat (a + 1) + j = nat a + Suc j" using Suc.prems by linarith
  from Suc.IH [OF a1 n] Suc.prems(3) e
  have "fst (WithRetry_action_loop rc done fn (a + 1) (recorded_action (fn (nat a)))) =
          Return (fn (nat a + Suc j)) \<and>
        calls (snd (WithRetry_action_loop rc done fn (a + 1) (recorded_action (fn (nat a))))) =
          Suc j"
    by simp
  then show ?case
    using g by (subst action_loop_unfold [OF assms], subst C)
      (auto simp: apsnd_def map_prod_def split: prod.splits)
qed

lemma action_exhausted:
  assumes "\<forall>k. closes (fn k)"
  shows "0 \<le> a \<Longrightarrow> a \<le> MaxRetries rc \<Longrightarrow>
   a + int (calls (snd (WithRetry_action_loop rc done fn a le))) = MaxRetries rc + 1 \<Longrightarrow>
   retryable_action (fn (nat (MaxRetries rc))) \<Longrightarrow>
   fst (WithRetry_action_loop rc done fn a le) =
     Return (None, recorded_action (fn (nat (MaxRetries rc))))"
proof (induction "nat (MaxRetries rc - a)" arbitrary: a le)
  case 0
  note C = action_calls [OF assms]
  from 0 have e: "a = MaxRetries rc" by simp
  have last: "WithRetry_action_loop rc done fn (a + 1) (recorded_action (fn (nat a))) =
                (Return (None, recorded_action (fn (nat a))), [])"
    using e by (subst action_loop_unfold [OF assms]) simp
  from 0(4) e have g: "\<not> (a > 0 \<and> done a)"
    by (subst (asm) C) (auto split: if_splits)
  show ?case using e g 0(5) last by (subst action_loop_unfold [OF assms]) auto
next
  case (Suc n)
  note C = action_calls [OF assms]
  from Suc have lt: "a < MaxRetries rc" by linarith
  from Suc.prems(3) lt
  have g: "\<not> (a > 0 \<and> done a) \<and> retryable_action (fn (nat a))"
    and m: "a + 1 + int (calls (snd (WithRetry_action_loop rc done fn (a + 1)
                                       (recorded_action (fn (nat a))))))
              = MaxRetries rc + 1"
    by (subst (asm) C, auto split: if_splits)+
  have "n = nat (MaxRetries rc - (a + 1))" using Suc.hyps(2) by linarith
  from Suc.hyps(1) [OF this _ _ m Suc.prems(4)] lt Suc.prems(1)
  have "fst (WithRetry_action_loop rc done fn (a + 1) (recorded_action (fn (nat a)))) =
          Return (None, recorded_action (fn (nat (MaxRetries rc))))"
    by simp
  then show ?case
    using g lt by (subst action_loop_unfold [OF assms])
      (auto simp: apsnd_def map_prod_def split: prod.splits)
qed

lemma action_cancelled:
  assumes "\<forall>k. closes (fn k)"
  shows "0 \<le> a \<Longrightarrow> calls (snd (WithRetry_action_loop rc done fn a le)) = Suc j \<Longrightarrow>
   retryable_action (fn (nat a + j)) \<Longrightarrow> a + int j + 1 \<le> MaxRetries rc \<Longrightarrow>
   fst (WithRetry_action_loop rc done fn a le) = Return (None, Some ContextError) \<and>
   done (a + int j + 1)"
proof (induction j arbitrary: a le)
  case 0
  note C = action_calls [OF assms]
  from 0(2) have g: "a \<le> MaxRetries rc \<and> \<not> (a > 0 \<and> done a)"
    and n: "calls (snd (WithRetry_action_loop rc done fn (a + 1)
                          (recorded_action (fn (nat a))))) = 0"
    using 0(3) by (subst (asm) C, auto split: if_splits)+
  from n 0 have d: "done (a + 1)"
    by (subst (asm) C) (auto split: if_splits)
  have "WithRetry_action_loop rc done fn (a + 1) (recorded_action (fn (nat a))) =
          (Return (None, Some ContextError), [Backoff (a + 1)])"
    using d 0 by (subst action_loop_unfold [OF assms]) auto
  then show ?case using g 0 d by (subst action_loop_unfold [OF assms]) auto
next
  case (Suc j)
  note C = action_calls [OF assms]
  from Suc.prems(2)
  have g: "a \<le> MaxRetries rc \<and> \<not> (a > 0 \<and> done a) \<and> retryable_action (fn (nat a))"
    and n: "calls (snd (WithRetry_action_loop rc done fn (a + 1)
                          (recorded_action (fn (nat a))))) = Suc j"
    by (subst (asm) C, auto split: if_splits)+
  have a1: "0 \<le> a + 1" using Suc.prems by simp
  have e: "nat (a + 1) + j = nat a + Suc j" using Suc.prems by linarith
  from Suc.IH [OF a1 n] Suc.prems(3,4) e
  have "fst (WithRetry_action_loop rc done fn (a + 1) (recorded_action (fn (nat a)))) =
          Return (None, Some ContextError) \<and> done (a + 1 + int j + 1)"
    by (simp add: algebra_simps)
  then show ?case
    using g by (subst action_loop_unfold [OF assms])
      (auto simp: apsnd_def map_prod_def algebra_simps split: prod.splits)
qed

lemma retryable_action_iff:
  "retryable_action (resp, err) =
     (err \<noteq> None \<or>
      (\<exists>r. resp = Some r \<and> ActionStatusCode r \<in> {429, 500, 502, 503, 504}))"
  by (auto simp: retryable_action_def IsRetryableError_def split: option.splits)

text \<open>
  On an action that keeps the contract of \<open>http.Client.Do\<close>, the loop for any action
  does what the loop of \<open>publish\<close> does.
\<close>

lemma closes_Do: "\<forall>k. closes (Do (fn k))"
proof
  fix k show "closes (Do (fn k))"
    by (cases "fn k") (auto simp: closes_def Do_def with_body_def split: option.splits)
qed

lemma retryable_action_Do: "retryable_action (Do res) = retryable res"
  by (cases res) (auto simp: retryable_action_def retryable_def Do_def with_body_def
      split: option.splits)

lemma recorded_action_Do: "recorded_action (Do res) = recorded res"
  by (cases res) (auto simp: recorded_action_def recorded_def Do_def with_body_def
      split: option.splits)

lemma Do_None: "Do (None, err) = (None, err)"
  by (simp add: Do_def)

lemma WithRetry_action_loop_Do:
  "WithRetry_action_loop rc done (\<lambda>k. Do (fn k)) a le =
     (Return (Do (fst (WithRetry_loop rc done fn a le))), snd (WithRetry_loop rc done fn a le))"
proof (induction "nat (MaxRetries rc + 1 - a)" arbitrary: a le)
  case 0
  then have "\<not> a \<le> MaxRetries rc" by simp
  then show ?case
    by (simp add: action_loop_unfold [OF closes_Do [of fn], of rc "done" a le]
        loop_unfold [of rc "done" fn a le] Do_None)
next
  case (Suc n)
  have "n = nat (MaxRetries rc + 1 - (a + 1))" using Suc.hyps(2) by linarith
  note IH = Suc.hyps(1) [OF this, of "recorded (fn (nat a))"]
  show ?case
  proof (cases "a > 0 \<and> done a")
    case True
    then show ?thesis
      by (simp add: action_loop_unfold [OF closes_Do [of fn], of rc "done" a le]
          loop_unfold [of rc "done" fn a le] Do_None)
  next
    case False
    note nd = False
    show ?thesis
    proof (cases "retryable (fn (nat a))")
      case True
      obtain res evs where
        l: "WithRetry_loop rc done fn (a + 1) (recorded (fn (nat a))) = (res, evs)"
        by (cases "WithRetry_loop rc done fn (a + 1) (recorded (fn (nat a)))")
      with IH have
        "WithRetry_action_loop rc done (\<lambda>k. Do (fn k)) (a + 1) (recorded (fn (nat a))) =
           (Return (Do res), evs)"
        by simp
      with True nd l show ?thesis
        by (auto simp: action_loop_unfold [OF closes_Do [of fn], of rc "done" a le]
            loop_unfold [of rc "done" fn a le] retryable_action_Do recorded_action_Do Do_None)
    next
      case False
      with nd show ?thesis
        by (auto simp: action_loop_unfold [OF closes_Do [of fn], of rc "done" a le]
            loop_unfold [of rc "done" fn a le] retryable_action_Do Do_None)
    qed
  qed
qed

lemma WithRetry_action_Do:
  "WithRetry_action rc done (\<lambda>k. Do (fn k)) =
     (Return (Do (fst (WithRetry rc done fn))), snd (WithRetry rc done fn))"
  by (simp add: WithRetry_action_def WithRetry_def WithRetry_action_loop_Do)

text \<open>
  C2, as stated, fails. With the default configuration (three retries) and an action
  that returns a transport error, a context that is done during the first backoff wait
  ends the call after one run of the action, with the context's error: the action is
  not run again although its last run returned a transport error, and three attempts
  were left.
\<close>

theorem WithRetry_counterexample:
  "Do (unreachable 0) = (None, Some (TransportError ''connection refused'')) \<and>
   WithRetry_action (Some DefaultRetryConfig) (\<lambda>k. True) (\<lambda>k. Do (unreachable k)) =
     (Return (None, Some ContextError), [Invoke, Backoff 1])"
proof -
  have "WithRetry (Some DefaultRetryConfig) (\<lambda>k. True) unreachable =
     ((None, Some ContextError), [Invoke, Backoff 1])"
    by (simp add: WithRetry_def loop_unfold DefaultRetryConfig_def unreachable_def
        retryable_def recorded_def)
  then have "WithRetry_action (Some DefaultRetryConfig) (\<lambda>k. True) (\<lambda>k. Do (unreachable k)) =
     (Return (None, Some ContextError), [Invoke, Backoff 1])"
    by (simp only: WithRetry_action_Do fst_conv snd_conv Do_None)
  moreover have "Do (unreachable 0) = (None, Some (TransportError ''connection refused''))"
    by (simp add: unreachable_def Do_None)
  ultimately show ?thesis by simp
qed

text \<open>
  C2, amended. For every RetryConfig with \<open>MaxRetries = M\<close>, \<open>M\<close> not negative, and every
  action whose responses with a retryable status have a body (\<open>fn k\<close> is what its \<open>k\<close>-th
  run returns), \<open>WithRetry\<close> returns, and runs the action at least once and at most
  \<open>M + 1\<close> times. After the \<open>k\<close>-th run it runs the action again exactly when that run
  returned an error or a response with status 429, 500, 502, 503 or 504, an attempt is
  left, and the context is not done during the backoff wait. The first run that returns
  no error and a response with another status (or no response) ends the call, which
  returns what the run returned, with no error. When the last of the \<open>M + 1\<close> runs is
  retryable, the call returns no response and the error recorded for that run: the
  run's own error, or the \<open>retryable error\<close> server error holding the response. When
  the context is done during a backoff wait, the call returns no response and the
  context's error.
\<close>

theorem WithRetry_attempts:
  assumes "0 \<le> MaxRetries rc" and "\<forall>k. closes (fn k)"
    and "WithRetry_action (Some rc) done fn = (out, evs)"
  shows "(\<exists>res. out = Return res) \<and>
    0 < calls evs \<and> int (calls evs) \<le> MaxRetries rc + 1 \<and>
    (\<forall>k < calls evs. (Suc k < calls evs) =
        (retryable_action (fn k) \<and> int (Suc k) \<le> MaxRetries rc \<and> \<not> done (int (Suc k)))) \<and>
    (\<forall>k < calls evs. \<not> retryable_action (fn k) \<longrightarrow>
        out = Return (fn k) \<and> calls evs = Suc k) \<and>
    (\<forall>k. calls evs = Suc k \<and> retryable_action (fn k) \<and> int (Suc k) = MaxRetries rc + 1 \<longrightarrow>
        out = Return (None, recorded_action (fn k))) \<and>
    (\<forall>k. calls evs = Suc k \<and> retryable_action (fn k) \<and> int (Suc k) \<le> MaxRetries rc \<longrightarrow>
        done (int (Suc k)) \<and> out = Return (None, Some ContextError)) \<and>
    (\<forall>resp err. retryable_action (resp, err) =
        (err \<noteq> None \<or>
         (\<exists>r. resp = Some r \<and> ActionStatusCode r \<in> {429, 500, 502, 503, 504}))) \<and>
    (\<forall>resp err. recorded_action (resp, Some err) = Some err) \<and>
    (\<forall>r b. retryable_action (Some r, None) \<and> ActionBody r = Some b \<longrightarrow>
        recorded_action (Some r, None) =
          Some (ServerError ''retryable error''
                  (Some \<lparr>StatusCode = ActionStatusCode r, StatusText = ActionStatus r,
                          RespBody = b\<rparr>) None None))"
proof -
  let ?L = "WithRetry_action_loop rc done fn 0 None"
  note C = assms(2)
  from assms(3) have out: "out = fst ?L" and evs: "evs = snd ?L"
    by (simp_all add: WithRetry_action_def)
  have z: "(0::int) \<le> 0" by simp
  have 0: "\<exists>res. out = Return res"
    using action_returns [OF C, of rc "done" 0 None] by (simp add: out)
  have 1: "0 < calls evs"
    using assms(1) by (simp add: evs action_calls [OF C, of rc "done" 0 None])
  have 2: "int (calls evs) \<le> MaxRetries rc + 1"
    using action_calls_le [OF C, of rc "done" 0 None] assms(1) by (simp add: evs)
  have 3: "\<forall>k < calls evs. (Suc k < calls evs) =
        (retryable_action (fn k) \<and> int (Suc k) \<le> MaxRetries rc \<and> \<not> done (int (Suc k)))"
    using action_next [OF C z, of _ rc "done" None] by (simp add: evs add.commute)
  have 4: "\<forall>k < calls evs. \<not> retryable_action (fn k) \<longrightarrow>
        out = Return (fn k) \<and> calls evs = Suc k"
    using action_stop [OF C z, of _ rc "done" None] by (simp add: evs out)
  have 5: "\<forall>k. calls evs = Suc k \<and> retryable_action (fn k) \<and>
        int (Suc k) = MaxRetries rc + 1 \<longrightarrow> out = Return (None, recorded_action (fn k))"
  proof (intro allI impI)
    fix k
    assume h: "calls evs = Suc k \<and> retryable_action (fn k) \<and> int (Suc k) = MaxRetries rc + 1"
    then have m: "MaxRetries rc = int k" by simp
    have "fst ?L = Return (None, recorded_action (fn (nat (MaxRetries rc))))"
      using h m by (intro action_exhausted [OF C]) (simp_all add: evs [symmetric])
    then show "out = Return (None, recorded_action (fn k))" by (simp add: out m)
  qed
  have 6: "\<forall>k. calls evs = Suc k \<and> retryable_action (fn k) \<and> int (Suc k) \<le> MaxRetries rc \<longrightarrow>
        done (int (Suc k)) \<and> out = Return (None, Some ContextError)"
  proof (intro allI impI)
    fix k
    assume h: "calls evs = Suc k \<and> retryable_action (fn k) \<and> int (Suc k) \<le> MaxRetries rc"
    have "fst ?L = Return (None, Some ContextError) \<and> done (0 + int k + 1)"
      using h by (intro action_cancelled [OF C]) (simp_all add: evs [symmetric])
    then show "done (int (Suc k)) \<and> out = Return (None, Some ContextError)"
      by (simp add: out add.commute)
  qed
  have 7: "\<forall>resp err. retryable_action (resp, err) =
        (err \<noteq> None \<or>
         (\<exists>r. resp = Some r \<and> ActionStatusCode r \<in> {429, 500, 502, 503, 504}))"
    using retryable_action_iff by blast
  have 8: "\<forall>resp err. recorded_action (resp, Some err) = Some err"
    by (simp add: recorded_action_def split: option.splits)
  have 9: "\<forall>r b. retryable_action (Some r, None) \<and> ActionBody r = Some b \<longrightarrow>
        recorded_action (Some r, None) =
          Some (ServerError ''retryable error''
                  (Some \<lparr>StatusCode = ActionStatusCode r, StatusText = ActionStatus r,
                          RespBody = b\<rparr>) None None)"
    by (simp add: recorded_action_def retryable_action_def)
  show ?thesis
    by (rule conjI [OF 0 conjI [OF 1 conjI [OF 2 conjI [OF 3 conjI [OF 4 conjI [OF 5
          conjI [OF 6 conjI [OF 7 conjI [OF 8 9]]]]]]]]])
qed

theorem WithRetry_attempts_witness:
  "0 \<le> MaxRetries DefaultRetryConfig \<and>
   WithRetry_action (Some DefaultRetryConfig) (\<lambda>k. False) (\<lambda>k. Do (flaky k)) =
     (Return (Some (with_body (response 200 ''200 OK'')), None),
      [Invoke, Backoff 1, Invoke, Backoff 2, Invoke]) \<and>
   int (calls [Invoke, Backoff 1, Invoke, Backoff 2, Invoke]) \<le> MaxRetries DefaultRetryConfig + 1 \<and>
   retryable_action (Do (flaky 0)) \<and> retryable_action (Do (flaky 1)) \<and>
   \<not> retryable_action (Do (flaky 2)) \<and>
   Return (Some (with_body (response 200 ''200 OK'')), None) = Return (Do (flaky 2)) \<and>
   WithRetry_action (Some DefaultRetryConfig) (\<lambda>k. False) (\<lambda>k. Do (unreachable k)) =
     (Return (None, Some (TransportError ''connection refused'')),
      [Invoke, Backoff 1, Invoke, Backoff 2, Invoke, Backoff 3, Invoke]) \<and>
   Return (None :: action_Response option, Some (TransportError ''connection refused'')) =
     Return (None, recorded_action (Do (unreachable 3))) \<and>
   WithRetry_action (Some DefaultRetryConfig) (\<lambda>k. k = 2) (\<lambda>k. Do (unreachable k)) =
     (Return (None, Some ContextError), [Invoke, Backoff 1, Invoke, Backoff 2]) \<and>
   retryable_action (Do (unreachable 1)) \<and> (2::int) \<le> MaxRetries DefaultRetryConfig"
proof -
  have a0: "WithRetry (Some DefaultRetryConfig) (\<lambda>k. False) flaky =
     ((Some (response 200 ''200 OK''), None), [Invoke, Backoff 1, Invoke, Backoff 2, Invoke])"
    by (simp add: WithRetry_def loop_unfold DefaultRetryConfig_def flaky_def
        response_def IsRetryableError_def retryable_def recorded_def)
  have b0: "WithRetry (Some DefaultRetryConfig) (\<lambda>k. False) unreachable =
     ((None, Some (TransportError ''connection refused'')),
      [Invoke, Backoff 1, Invoke, Backoff 2, Invoke, Backoff 3, Invoke])"
    by (simp add: WithRetry_def loop_unfold DefaultRetryConfig_def unreachable_def
        retryable_def recorded_def)
  have c0: "WithRetry (Some DefaultRetryConfig) (\<lambda>k. k = 2) unreachable =
     ((None, Some ContextError), [Invoke, Backoff 1, Invoke, Backoff 2])"
    by (simp add: WithRetry_def loop_unfold DefaultRetryConfig_def unreachable_def
        retryable_def recorded_def)
  have a: "WithRetry_action (Some DefaultRetryConfig) (\<lambda>k. False) (\<lambda>k. Do (flaky k)) =
     (Return (Some (with_body (response 200 ''200 OK'')), None),
      [Invoke, Backoff 1, Invoke, Backoff 2, Invoke])"
  proof -
    have "Do (Some (response 200 ''200 OK''), None) =
            (Some (with_body (response 200 ''200 OK'')), None)"
      by (simp add: Do_def)
    then show ?thesis
      by (simp only: WithRetry_action_Do a0 fst_conv snd_conv)
  qed
  have b: "WithRetry_action (Some DefaultRetryConfig) (\<lambda>k. False) (\<lambda>k. Do (unreachable k)) =
     (Return (None, Some (TransportError ''connection refused'')),
      [Invoke, Backoff 1, Invoke, Backoff 2, Invoke, Backoff 3, Invoke])"
    by (simp only: WithRetry_action_Do b0 fst_conv snd_conv Do_None)
  have c: "WithRetry_action (Some DefaultRetryConfig) (\<lambda>k. k = 2) (\<lambda>k. Do (unreachable k)) =
     (Return (None, Some ContextError), [Invoke, Backoff 1, Invoke, Backoff 2])"
    by (simp only: WithRetry_action_Do c0 fst_conv snd_conv Do_None)
  have m: "0 \<le> MaxRetries DefaultRetryConfig" by (simp add: DefaultRetryConfig_def)
  have r: "retryable_action (Do (flaky 0)) \<and> retryable_action (Do (flaky 1)) \<and>
           \<not> retryable_action (Do (flaky 2))"
    by (simp add: retryable_action_Do retryable_def flaky_def response_def IsRetryableError_def)
  have u: "retryable_action (Do (unreachable 1)) \<and> retryable_action (Do (unreachable 3)) \<and>
           (2::int) \<le> MaxRetries DefaultRetryConfig \<and>
           (4::int) = MaxRetries DefaultRetryConfig + 1"
    by (simp add: retryable_action_Do retryable_def unreachable_def DefaultRetryConfig_def)
  note A = WithRetry_attempts [OF m closes_Do a]
  note B = WithRetry_attempts [OF m closes_Do b]
  note C = WithRetry_attempts [OF m closes_Do c]
  have n: "int (calls [Invoke, Backoff 1, Invoke, Backoff 2, Invoke])
           \<le> MaxRetries DefaultRetryConfig + 1"
    by (rule A [THEN conjunct2, THEN conjunct2, THEN conjunct1])
  have k2: "2 < calls [Invoke, Backoff 1, Invoke, Backoff 2, Invoke]" by simp
  from A [THEN conjunct2, THEN conjunct2, THEN conjunct2, THEN conjunct2, THEN conjunct1,
      rule_format, OF k2] r
  have s: "Return (Some (with_body (response 200 ''200 OK'')), None) = Return (Do (flaky 2))"
    by blast
  have k3: "calls [Invoke, Backoff 1, Invoke, Backoff 2, Invoke, Backoff 3, Invoke] = Suc 3 \<and>
            retryable_action (Do (unreachable 3)) \<and>
            int (Suc 3) = MaxRetries DefaultRetryConfig + 1"
    using u by simp
  from B [THEN conjunct2, THEN conjunct2, THEN conjunct2, THEN conjunct2, THEN conjunct2,
      THEN conjunct1, rule_format, OF k3]
  have x: "Return (None :: action_Response option, Some (TransportError ''connection refused'')) =
     Return (None, recorded_action (Do (unreachable 3)))" .
  have k1: "calls [Invoke, Backoff 1, Invoke, Backoff 2] = Suc 1 \<and>
            retryable_action (Do (unreachable 1)) \<and> int (Suc 1) \<le> MaxRetries DefaultRetryConfig"
    using u by simp
  from C [THEN conjunct2, THEN conjunct2, THEN conjunct2, THEN conjunct2, THEN conjunct2,
      THEN conjunct2, THEN conjunct1, rule_format, OF k1]
  have y: "int (Suc 1) = 2" by simp
  from m a b c r u n s x y show ?thesis by blast
qed

section \<open>Backoff: the value \<open>ExponentialBackoff\<close> returns\<close>

lemma ExponentialBackoff_first:
  "attempt \<le> 0 \<Longrightarrow> ExponentialBackoff indefinite c attempt = InitialInterval c"
  by (simp add: ExponentialBackoff_def)

lemma ExponentialBackoff_in_range:
  assumes "0 < attempt"
    and "MinInt64 \<le> trunc (real_of_int (InitialInterval c) * Multiplier c ^ nat (attempt - 1))"
    and "trunc (real_of_int (InitialInterval c) * Multiplier c ^ nat (attempt - 1)) \<le> MaxInt64"
  shows "ExponentialBackoff indefinite c attempt =
           min (trunc (real_of_int (InitialInterval c) * Multiplier c ^ nat (attempt - 1)))
             (MaxInterval c)"
  using assms by (simp add: ExponentialBackoff_def Duration_of_float64_def Let_def min_def)

lemma ExponentialBackoff_out_of_range:
  assumes "0 < attempt"
    and "MaxInt64 < trunc (real_of_int (InitialInterval c) * Multiplier c ^ nat (attempt - 1))"
  shows "ExponentialBackoff indefinite c attempt = min indefinite (MaxInterval c)"
  using assms by (simp add: ExponentialBackoff_def Duration_of_float64_def Let_def min_def)

text \<open>
  C3. With the default configuration (one second, doubling, at most thirty seconds) the
  product at attempt 35 is \<open>10^9 * 2^34\<close> nanoseconds, which a \<open>float64\<close> holds exactly
  and which does not fit an \<open>int64\<close>. The conversion gives the implementation's value,
  on amd64 the smallest \<open>int64\<close>; that is not above \<open>MaxInterval\<close>, so the cap is not
  applied and the negative value is returned, where the formula gives thirty seconds.
  Up to attempt 34 the product fits and the result is the formula's.
\<close>

theorem ExponentialBackoff_overflow:
  "ExponentialBackoff amd64_indefinite DefaultRetryConfig 35 = - 9223372036854775808 \<and>
   min (real_of_int (InitialInterval DefaultRetryConfig)
          * Multiplier DefaultRetryConfig ^ nat (35 - 1))
       (real_of_int (MaxInterval DefaultRetryConfig)) = 30000000000 \<and>
   ExponentialBackoff amd64_indefinite DefaultRetryConfig 34 = 30000000000 \<and>
   ExponentialBackoff amd64_indefinite DefaultRetryConfig 3 = 4000000000 \<and>
   ExponentialBackoff amd64_indefinite DefaultRetryConfig 0 = 1000000000"
  by (simp add: ExponentialBackoff_def Duration_of_float64_def trunc_def amd64_indefinite_def
      MinInt64_def MaxInt64_def DefaultRetryConfig_def Let_def)


section \<open>Publishing: validation, expansion and the pairing of tickets with messages\<close>

declare digits.simps [simp del]

lemma expandedMessages_Some:
  "expandedMessages (map Some ms) =
     Return (concat (map (\<lambda>m. replicate (length (To m)) (Some m)) ms))"
  by (induction ms) simp_all

lemma length_expansion:
  "length (concat (map (\<lambda>m. replicate (length (To m)) (f m)) ms)) =
     sum_list (map (\<lambda>m. length (To m)) ms)"
  by (induction ms) simp_all

lemma assign_messages_Return:
  "assign_messages data expanded = Return tickets \<Longrightarrow>
   length tickets = length data \<and>
   (\<forall>i < length data. \<exists>t. data ! i = Some t \<and> tickets ! i = t\<lparr>MessageItem := expanded ! i\<rparr>)"
proof (induction data expanded arbitrary: tickets rule: assign_messages.induct)
  case (4 ticket rest m expanded)
  then obtain ts where ts: "assign_messages rest expanded = Return ts"
    and tk: "tickets = ticket\<lparr>MessageItem := m\<rparr> # ts"
    by (auto split: outcome.splits)
  from 4(1) [OF ts] show ?case
    using tk by (auto simp: nth_Cons split: nat.splits)
qed simp_all

lemma assign_messages_total:
  "length data = length expanded \<Longrightarrow> None \<notin> set data \<Longrightarrow>
   \<exists>tickets. assign_messages data expanded = Return tickets"
proof (induction data expanded rule: assign_messages.induct)
  case (4 ticket rest m expanded)
  then show ?case by (auto split: outcome.splits)
qed simp_all

lemma publish_success:
  assumes "publish e cnf msgs = (Return (Some tickets, err), evs)"
  shows "err = None \<and> validate msgs = Return None \<and>
         (\<exists>data expanded. expandedMessages msgs = Return expanded \<and>
            length expanded = length data \<and> assign_messages data expanded = Return tickets)"
  using assms unfolding publish_def
  by (auto split: outcome.splits option.splits prod.splits sum.splits if_splits)

text \<open>The publish call, once the reply is decoded to a ticket slice and no error list.\<close>

lemma publish_decoded:
  assumes "validate msgs = Return None"
    and "length msgs \<le> maxNotificationsPerRequest"
    and "WithRetry (RetryConfig cnf) (ctx_done_backoff e) (send e) = ((Some resp, None), evs)"
    and "checkStatus resp = None"
    and "decode_send e (RespBody resp) = Inr (Some r)"
    and "RespErrors r = None" and "RespData r = Some data"
    and "expandedMessages msgs = Return expanded"
  shows "publish e cnf msgs =
     (if length expanded \<noteq> length data
      then (Return (None, Some (ServerError (mismatch_message (length expanded) (length data))
              (Some resp) (Some r) None)), evs)
      else (case assign_messages data expanded of
              Panic \<Rightarrow> (Panic, evs)
            | Return tickets \<Rightarrow> (Return (Some tickets, None), evs)))"
  using assms by (simp add: publish_def NewServerError_def)

lemma check_recipients_Some:
  "check_recipients ts = Some err \<Longrightarrow> err = ErrorString ''invalid push token''"
  by (induction ts) (auto split: if_splits)

lemma check_recipients_bad:
  "t \<in> set ts \<Longrightarrow> t = None \<or> t = Some [] \<Longrightarrow>
   check_recipients ts = Some (ErrorString ''invalid push token'')"
  by (induction ts) auto

lemma validate_bad:
  "m \<in> set ms \<Longrightarrow> t \<in> set (To m) \<Longrightarrow> t = None \<or> t = Some [] \<Longrightarrow>
   \<exists>err. validate (map Some ms) = Return (Some (ErrorString err)) \<and>
     (err = ''invalid push token'' \<or> err = ''no recipients'') \<and>
     ((\<forall>m \<in> set ms. To m \<noteq> []) \<longrightarrow> err = ''invalid push token'')"
proof (induction ms)
  case Nil
  then show ?case by simp
next
  case (Cons a ms)
  show ?case
  proof (cases "To a = []")
    case True
    then show ?thesis by simp
  next
    case False
    show ?thesis
    proof (cases "check_recipients (To a)")
      case (Some err)
      with check_recipients_Some [OF Some] False show ?thesis by simp
    next
      case None
      with Cons.prems check_recipients_bad have "m \<noteq> a" by fastforce
      with Cons.prems have "m \<in> set ms" by simp
      from Cons.IH [OF this Cons.prems(2,3)] None False show ?thesis by auto
    qed
  qed
qed

text \<open>
  C1. For every batch of messages that validation accepts, with recipient counts adding
  up to \<open>n\<close>, and every server reply that decodes to a ticket array (status 2xx, no
  error list): if the array's length is not \<open>n\<close>, \<open>publish\<close> returns no tickets and the
  server error whose message reports \<open>n\<close> and the length received; if the length is \<open>n\<close>
  (and every element is a ticket) it returns the tickets of the array, in order, the
  \<open>i\<close>-th one tied to the \<open>i\<close>-th entry of the expansion. Whatever the reply, a call
  that returns tickets returns \<open>n\<close> of them and no error.
\<close>

theorem publish_ticket_count:
  assumes "validate (map Some ms) = Return None"
    and "length ms \<le> maxNotificationsPerRequest"
    and "WithRetry (RetryConfig cnf) (ctx_done_backoff e) (send e) = ((Some resp, None), evs)"
    and "checkStatus resp = None"
    and "decode_send e (RespBody resp) = Inr (Some r)"
    and "RespErrors r = None" and "RespData r = Some data"
  shows "(length data \<noteq> sum_list (map (\<lambda>m. length (To m)) ms) \<longrightarrow>
            publish e cnf (map Some ms) =
              (Return (None, Some (ServerError
                 (''mismatched response length. Expected ''
                    @ fmt_d (int (sum_list (map (\<lambda>m. length (To m)) ms)))
                    @ '' receipts but only received '' @ fmt_d (int (length data)))
                 (Some resp) (Some r) None)), evs)) \<and>
         (length data = sum_list (map (\<lambda>m. length (To m)) ms) \<and> None \<notin> set data \<longrightarrow>
            (\<exists>tickets. publish e cnf (map Some ms) = (Return (Some tickets, None), evs) \<and>
               length tickets = sum_list (map (\<lambda>m. length (To m)) ms) \<and>
               (\<forall>i < length tickets. tickets ! i =
                  (the (data ! i))\<lparr>MessageItem :=
                     concat (map (\<lambda>m. replicate (length (To m)) (Some m)) ms) ! i\<rparr>))) \<and>
         (\<forall>tickets err evs'. publish e cnf (map Some ms) = (Return (Some tickets, err), evs') \<longrightarrow>
            err = None \<and> length tickets = sum_list (map (\<lambda>m. length (To m)) ms))"
proof -
  let ?n = "sum_list (map (\<lambda>m. length (To m)) ms)"
  let ?ex = "concat (map (\<lambda>m. replicate (length (To m)) (Some m)) ms)"
  have len: "length ?ex = ?n" by (rule length_expansion)
  have l: "length (map Some ms) \<le> maxNotificationsPerRequest" using assms(2) by simp
  note P = publish_decoded [OF assms(1) l assms(3-7) expandedMessages_Some]
  have 1: "length data \<noteq> ?n \<longrightarrow> publish e cnf (map Some ms) =
              (Return (None, Some (ServerError
                 (''mismatched response length. Expected '' @ fmt_d (int ?n)
                    @ '' receipts but only received '' @ fmt_d (int (length data)))
                 (Some resp) (Some r) None)), evs)"
    using P len by (auto simp: mismatch_message_def)
  have 2: "length data = ?n \<and> None \<notin> set data \<longrightarrow>
            (\<exists>tickets. publish e cnf (map Some ms) = (Return (Some tickets, None), evs) \<and>
               length tickets = ?n \<and>
               (\<forall>i < length tickets. tickets ! i = (the (data ! i))\<lparr>MessageItem := ?ex ! i\<rparr>))"
  proof
    assume h: "length data = ?n \<and> None \<notin> set data"
    then have eq: "length data = length ?ex" using len by simp
    from assign_messages_total [OF eq] h
    obtain tickets where t: "assign_messages data ?ex = Return tickets" by blast
    from assign_messages_Return [OF t]
    have "length tickets = length data"
      and "\<forall>i < length data. tickets ! i = (the (data ! i))\<lparr>MessageItem := ?ex ! i\<rparr>"
      by auto
    moreover have "publish e cnf (map Some ms) = (Return (Some tickets, None), evs)"
      using P eq t by simp
    ultimately show "\<exists>tickets. publish e cnf (map Some ms) = (Return (Some tickets, None), evs) \<and>
               length tickets = ?n \<and>
               (\<forall>i < length tickets. tickets ! i = (the (data ! i))\<lparr>MessageItem := ?ex ! i\<rparr>)"
      using h by auto
  qed
  have 3: "\<forall>tickets err evs'. publish e cnf (map Some ms) = (Return (Some tickets, err), evs') \<longrightarrow>
            err = None \<and> length tickets = ?n"
  proof (intro allI impI)
    fix tickets err evs'
    assume "publish e cnf (map Some ms) = (Return (Some tickets, err), evs')"
    from publish_success [OF this] obtain data' expanded where
      "err = None" "expandedMessages (map Some ms) = Return expanded"
      "length expanded = length data'" "assign_messages data' expanded = Return tickets"
      by blast
    with assign_messages_Return [of data' expanded tickets] len
    show "err = None \<and> length tickets = ?n" by (simp add: expandedMessages_Some)
  qed
  from 1 2 3 show ?thesis by blast
qed

lemma WithRetry_server:
  "WithRetry (RetryConfig cnf0) (ctx_done_backoff (server reply)) (send (server reply)) =
     ((Some (response 200 ''200 OK''), None), [Invoke])"
  by (simp add: WithRetry_def loop_unfold cnf0_def server_def DefaultRetryConfig_def
      retryable_def response_def IsRetryableError_def)

lemma server_simps:
  "checkStatus (response 200 ''200 OK'') = None"
  "decode_send (server reply) b = Inr reply"
  by (simp_all add: checkStatus_def response_def server_def)

lemma validate_examples:
  "validate (map Some [msgAB]) = Return None"
  "validate (map Some [msgA]) = Return None"
  "validate (map Some [msgMalformed]) = Return None"
  by (simp_all add: msgAB_def msgA_def msgMalformed_def msg0_def)

theorem publish_ticket_count_witness:
  "publish (server (Some replyOne)) cnf0 (map Some [msgAB]) =
     (Return (None, Some (ServerError
        ''mismatched response length. Expected 2 receipts but only received 1''
        (Some (response 200 ''200 OK'')) (Some replyOne) None)), [Invoke]) \<and>
   publish (server (Some replyTwo)) cnf0 (map Some [msgAB]) =
     (Return (Some [(ticket ''t1'' ''ok'' [])\<lparr>MessageItem := Some msgAB\<rparr>,
                    (ticket ''t2'' ''ok'' [])\<lparr>MessageItem := Some msgAB\<rparr>], None), [Invoke]) \<and>
   length [(ticket ''t1'' ''ok'' [])\<lparr>MessageItem := Some msgAB\<rparr>,
           (ticket ''t2'' ''ok'' [])\<lparr>MessageItem := Some msgAB\<rparr>] =
     sum_list (map (\<lambda>m. length (To m)) [msgAB])"
proof -
  have l: "length [msgAB] \<le> maxNotificationsPerRequest"
    by (simp add: maxNotificationsPerRequest_def)
  have one: "RespErrors replyOne = None"
    "RespData replyOne = Some [Some (ticket ''t1'' ''ok'' [])]"
    by (simp_all add: replyOne_def)
  have two: "RespErrors replyTwo = None"
    "RespData replyTwo = Some [Some (ticket ''t1'' ''ok'' []), Some (ticket ''t2'' ''ok'' [])]"
    by (simp_all add: replyTwo_def)
  have n: "sum_list (map (\<lambda>m. length (To m)) [msgAB]) = 2"
    by (simp add: msgAB_def)
  have f: "fmt_d (int 2) = ''2''" "fmt_d (int 1) = ''1''"
    by (simp_all add: fmt_d_def digits.simps)
  note A = publish_ticket_count [OF validate_examples(1) l WithRetry_server server_simps one]
  note B = publish_ticket_count [OF validate_examples(1) l WithRetry_server server_simps two]
  from A [THEN conjunct1] n f
  have a: "publish (server (Some replyOne)) cnf0 (map Some [msgAB]) =
     (Return (None, Some (ServerError
        ''mismatched response length. Expected 2 receipts but only received 1''
        (Some (response 200 ''200 OK'')) (Some replyOne) None)), [Invoke])"
    by simp
  from B [THEN conjunct2, THEN conjunct1] n
  obtain tickets where t: "publish (server (Some replyTwo)) cnf0 (map Some [msgAB]) =
        (Return (Some tickets, None), [Invoke])"
    and len: "length tickets = 2"
    and nth: "\<forall>i < length tickets. tickets ! i =
       (the ([Some (ticket ''t1'' ''ok'' []), Some (ticket ''t2'' ''ok'' [])] ! i))
         \<lparr>MessageItem := concat (map (\<lambda>m. replicate (length (To m)) (Some m)) [msgAB]) ! i\<rparr>"
    by auto
  have e: "concat (map (\<lambda>m. replicate (length (To m)) (Some m)) [msgAB]) = [Some msgAB, Some msgAB]"
    by (simp add: msgAB_def numeral_2_eq_2)
  from len obtain x y where xy: "tickets = [x, y]"
    by (auto simp: length_Suc_conv numeral_2_eq_2)
  from nth [rule_format, of 0] nth [rule_format, of 1] xy e
  have "x = (ticket ''t1'' ''ok'' [])\<lparr>MessageItem := Some msgAB\<rparr>"
    and "y = (ticket ''t2'' ''ok'' [])\<lparr>MessageItem := Some msgAB\<rparr>"
    by simp_all
  with t xy n a show ?thesis by simp
qed

text \<open>
  C4. Whenever \<open>publish\<close> returns tickets for a batch, the expansion it built is the flat
  list holding every message once per recipient, in the order of the batch, and the
  ticket at index \<open>i\<close> has its \<open>MessageItem\<close> set to the \<open>i\<close>-th entry of that list. So
  one message addressed to two tokens comes back as two tickets that both refer to it.
\<close>

theorem publish_pairs_tickets:
  assumes "publish e cnf (map Some ms) = (Return (Some tickets, err), evs)"
  shows "expandedMessages (map Some ms) =
           Return (map Some (concat (map (\<lambda>m. replicate (length (To m)) m) ms))) \<and>
         length tickets = length (concat (map (\<lambda>m. replicate (length (To m)) m) ms)) \<and>
         (\<forall>i < length tickets.
            MessageItem (tickets ! i) =
              Some (concat (map (\<lambda>m. replicate (length (To m)) m) ms) ! i)) \<and>
         (\<forall>m. ms = [m] \<and> length (To m) = 2 \<longrightarrow>
            length tickets = 2 \<and> MessageItem (tickets ! 0) = Some m \<and>
            MessageItem (tickets ! 1) = Some m)"
proof -
  let ?flat = "concat (map (\<lambda>m. replicate (length (To m)) m) ms)"
  have ex: "expandedMessages (map Some ms) = Return (map Some ?flat)"
    by (simp add: expandedMessages_Some map_concat comp_def)
  from publish_success [OF assms] ex obtain data where
    l: "length (map Some ?flat) = length data"
    and a: "assign_messages data (map Some ?flat) = Return tickets"
    by auto
  from assign_messages_Return [OF a] l
  have len: "length tickets = length ?flat"
    and nth: "\<forall>i < length tickets. MessageItem (tickets ! i) = Some (?flat ! i)"
    by auto
  have two: "\<forall>m. ms = [m] \<and> length (To m) = 2 \<longrightarrow>
            length tickets = 2 \<and> MessageItem (tickets ! 0) = Some m \<and>
            MessageItem (tickets ! 1) = Some m"
  proof (intro allI impI)
    fix m assume h: "ms = [m] \<and> length (To m) = 2"
    then have f: "?flat = [m, m]" by (simp add: numeral_2_eq_2)
    with len nth show "length tickets = 2 \<and> MessageItem (tickets ! 0) = Some m \<and>
            MessageItem (tickets ! 1) = Some m"
      by simp
  qed
  from ex len nth two show ?thesis by blast
qed

theorem publish_pairs_tickets_witness:
  "publish (server (Some replyTwo)) cnf0 (map Some [msgAB]) =
     (Return (Some [(ticket ''t1'' ''ok'' [])\<lparr>MessageItem := Some msgAB\<rparr>,
                    (ticket ''t2'' ''ok'' [])\<lparr>MessageItem := Some msgAB\<rparr>], None), [Invoke]) \<and>
   length (To msgAB) = 2 \<and>
   MessageItem ([(ticket ''t1'' ''ok'' [])\<lparr>MessageItem := Some msgAB\<rparr>,
                 (ticket ''t2'' ''ok'' [])\<lparr>MessageItem := Some msgAB\<rparr>] ! 0) = Some msgAB \<and>
   MessageItem ([(ticket ''t1'' ''ok'' [])\<lparr>MessageItem := Some msgAB\<rparr>,
                 (ticket ''t2'' ''ok'' [])\<lparr>MessageItem := Some msgAB\<rparr>] ! 1) = Some msgAB"
proof -
  have ex: "expandedMessages (map Some [msgAB]) = Return [Some msgAB, Some msgAB]"
    by (simp add: msgAB_def numeral_2_eq_2)
  have p: "publish (server (Some replyTwo)) cnf0 (map Some [msgAB]) =
     (Return (Some [(ticket ''t1'' ''ok'' [])\<lparr>MessageItem := Some msgAB\<rparr>,
                    (ticket ''t2'' ''ok'' [])\<lparr>MessageItem := Some msgAB\<rparr>], None), [Invoke])"
    using validate_examples(1) WithRetry_server [of "Some replyTwo"] ex
    by (simp add: publish_def server_simps replyTwo_def maxNotificationsPerRequest_def)
  have t: "[msgAB] = [msgAB] \<and> length (To msgAB) = 2" by (simp add: msgAB_def)
  from publish_pairs_tickets [OF p, THEN conjunct2, THEN conjunct2, THEN conjunct2,
      rule_format, OF t] p t
  show ?thesis by blast
qed

text \<open>
  C6, as stated, fails. The token \<open>abc\<close> does not start with \<open>ExponentPushToken\<close>, and a
  batch of one message addressed to it passes the validation of \<open>publish\<close>: the request
  is sent and the server's ticket is returned.
\<close>

theorem publish_malformed_token_counterexample:
  "\<not> prefix ''ExponentPushToken'' ''abc'' \<and> To msgMalformed = [Some ''abc''] \<and>
   publish (server (Some replyOne)) cnf0 [Some msgMalformed] =
     (Return (Some [(ticket ''t1'' ''ok'' [])\<lparr>MessageItem := Some msgMalformed\<rparr>], None),
      [Invoke])"
proof -
  have ex: "expandedMessages [Some msgMalformed] = Return [Some msgMalformed]"
    by (simp add: msgMalformed_def)
  have "publish (server (Some replyOne)) cnf0 [Some msgMalformed] =
     (Return (Some [(ticket ''t1'' ''ok'' [])\<lparr>MessageItem := Some msgMalformed\<rparr>], None),
      [Invoke])"
    using validate_examples(3) WithRetry_server [of "Some replyOne"] ex
    by (simp add: publish_def server_simps replyOne_def maxNotificationsPerRequest_def)
  then show ?thesis by (simp add: msgMalformed_def)
qed

text \<open>
  C6, amended. For every batch of messages in which some message has a nil or empty
  recipient token, \<open>publish\<close> returns a validation error and no tickets before anything
  is sent (no event happens): \<open>invalid push token\<close>, or \<open>no recipients\<close> when a message
  without recipients comes first; it is \<open>invalid push token\<close> whenever every message
  has a recipient. \<open>publish\<close> does not compare a non-empty token with the required
  prefix.
\<close>

theorem publish_rejects_empty_token:
  assumes "m \<in> set ms" and "t \<in> set (To m)" and "t = None \<or> t = Some []"
  shows "\<exists>err. publish e cnf (map Some ms) = (Return (None, Some (ErrorString err)), []) \<and>
     (err = ''invalid push token'' \<or> err = ''no recipients'') \<and>
     ((\<forall>m \<in> set ms. To m \<noteq> []) \<longrightarrow> err = ''invalid push token'')"
proof -
  from validate_bad [OF assms] obtain err where
    v: "validate (map Some ms) = Return (Some (ErrorString err))"
    and e: "(err = ''invalid push token'' \<or> err = ''no recipients'') \<and>
     ((\<forall>m \<in> set ms. To m \<noteq> []) \<longrightarrow> err = ''invalid push token'')"
    by blast
  from v have "publish e cnf (map Some ms) = (Return (None, Some (ErrorString err)), [])"
    by (simp add: publish_def)
  with e show ?thesis by blast
qed

theorem publish_rejects_empty_token_witness:
  "msgEmptyToken \<in> set [msgA, msgEmptyToken] \<and> Some [] \<in> set (To msgEmptyToken) \<and>
   To msgA \<noteq> [] \<and> To msgEmptyToken \<noteq> [] \<and>
   publish (server (Some replyTwo)) cnf0 (map Some [msgA, msgEmptyToken]) =
     (Return (None, Some (ErrorString ''invalid push token'')), [])"
proof -
  have m: "msgEmptyToken \<in> set [msgA, msgEmptyToken]" by simp
  have t: "Some [] \<in> set (To msgEmptyToken)" by (simp add: msgEmptyToken_def)
  have r: "\<forall>m \<in> set [msgA, msgEmptyToken]. To m \<noteq> []"
    by (simp add: msgA_def msgEmptyToken_def)
  from publish_rejects_empty_token [OF m t, of "server (Some replyTwo)" cnf0] r
  have "publish (server (Some replyTwo)) cnf0 (map Some [msgA, msgEmptyToken]) =
     (Return (None, Some (ErrorString ''invalid push token'')), [])"
    by auto
  with m t r show ?thesis by simp
qed

section \<open>Replies that decode to nil\<close>

text \<open>
  C9. A publish reply with status 200 whose body is the JSON text \<open>null\<close> decodes
  without error to a nil \<open>*Response\<close>; reading \<open>r.Errors\<close> then panics. The receipt
  fetch does the same with \<open>receiptResp.Errors\<close>. A ticket array holding \<open>null\<close> makes
  the pairing loop of \<open>publish\<close> panic as well.
\<close>

theorem publish_null_body_panics:
  "publish (server None) cnf0 [Some msgA] = (Panic, [Invoke]) \<and>
   GetPushReceipts
     ((server None)\<lparr>fetch := (\<lambda>ids. (Some (response 200 ''200 OK''), None)),
                     decode_receipts := (\<lambda>b. Inr None)\<rparr>) cnf0 [''t1''] =
     (Panic, [GetReceipts [''t1'']]) \<and>
   publish (server (Some \<lparr>RespData = Some [None], RespErrors = None\<rparr>)) cnf0 [Some msgA] =
     (Panic, [Invoke])"
proof -
  have ex: "expandedMessages [Some msgA] = Return [Some msgA]"
    by (simp add: msgA_def)
  have 1: "publish (server None) cnf0 [Some msgA] = (Panic, [Invoke])"
    using validate_examples(2) WithRetry_server [of None]
    by (simp add: publish_def server_simps maxNotificationsPerRequest_def)
  have 2: "GetPushReceipts
     ((server None)\<lparr>fetch := (\<lambda>ids. (Some (response 200 ''200 OK''), None)),
                     decode_receipts := (\<lambda>b. Inr None)\<rparr>) cnf0 [''t1''] =
     (Panic, [GetReceipts [''t1'']])"
    by (simp add: GetPushReceipts_def maxReceiptsPerRequest_def server_simps)
  have 3: "publish (server (Some \<lparr>RespData = Some [None], RespErrors = None\<rparr>)) cnf0 [Some msgA] =
     (Panic, [Invoke])"
    using validate_examples(2) WithRetry_server [of "Some \<lparr>RespData = Some [None], RespErrors = None\<rparr>"] ex
    by (simp add: publish_def server_simps maxNotificationsPerRequest_def)
  from 1 2 3 show ?thesis by blast
qed

section \<open>Receipts: which tickets are fetched, and what a failed fetch returns\<close>

lemma foldl_collect_ticket:
  "foldl collect_ticket (ids, rs) responses =
     (ids @ map ID (filter eligible responses), rs @ map ticket_result responses)"
  by (induction responses arbitrary: ids rs) (simp_all add: collect_ticket_def)

lemma collect_tickets_eq:
  "collect_tickets responses =
     (map ID (filter eligible responses), map ticket_result responses)"
  by (simp add: collect_tickets_def foldl_collect_ticket)

lemma ticket_result_terminal:
  "\<not> eligible t \<Longrightarrow>
   ticket_result t =
     \<lparr>TicketID = [], ResultMessage = MessageItem t, PushTicket = Some t, PushReceipt = None,
      ResultError = Some (ErrorString (''push ticket error: '' @ Message t))\<rparr>"
  by (simp add: ticket_result_def)

lemma ticket_result_eligible:
  "eligible t \<Longrightarrow>
   ticket_result t =
     \<lparr>TicketID = ID t, ResultMessage = MessageItem t, PushTicket = Some t, PushReceipt = None,
      ResultError = None\<rparr>"
  by (simp add: ticket_result_def)

lemma match_receipts_Return:
  "match_receipts receipts results = Return matched \<Longrightarrow>
   length matched = length results \<and>
   (\<forall>i < length results. TicketID (results ! i) = [] \<longrightarrow> matched ! i = results ! i)"
proof (induction results arbitrary: matched)
  case Nil
  then show ?case by simp
next
  case (Cons result rest)
  from Cons.prems obtain rs x where rs: "match_receipts receipts rest = Return rs"
    and m: "matched = x # rs" and x: "TicketID result = [] \<longrightarrow> x = result"
    by (auto split: if_splits option.splits outcome.splits)
  from Cons.IH [OF rs] m x show ?case
    by (auto simp: nth_Cons split: nat.splits)
qed

lemma filter_eligible_empty:
  "(filter eligible responses = []) = (\<forall>t \<in> set responses. \<not> eligible t)"
  by (simp add: filter_empty_conv)

text \<open>The call, once \<open>Publish\<close> has returned tickets.\<close>

lemma Send_after_publish:
  assumes "Publish e cnf messages = (Return (Some responses, None), evs)"
  shows "SendPushNotificationsWithReceipts e cnf messages d =
     (let ticketIDs = map ID (filter eligible responses);
          results = map ticket_result responses;
          delay = (if d = 0 then defaultReceiptDelay else d) in
      if ticketIDs = [] then (Return (Some results, None), evs)
      else if ctx_done_delay e
      then (Return (Some results, Some ContextError), evs @ [Delay delay])
      else
        (case GetPushReceipts e cnf ticketIDs of (fetched, evs') \<Rightarrow>
           ((case fetched of
               Panic \<Rightarrow> Panic
             | Return (_, Some err) \<Rightarrow>
                 Return (Some results, Some (WrapError ''failed to fetch push receipts: '' err))
             | Return (receipts, None) \<Rightarrow>
                 (case match_receipts receipts results of
                    Panic \<Rightarrow> Panic
                  | Return matched \<Rightarrow> Return (Some matched, None))),
            evs @ Delay delay # evs')))"
  using assms
  by (simp add: SendPushNotificationsWithReceipts_def collect_tickets_eq Let_def)

lemma GetPushReceipts_events:
  "ids \<noteq> [] \<Longrightarrow> length ids \<le> maxReceiptsPerRequest \<Longrightarrow>
   snd (GetPushReceipts e cnf ids) = [GetReceipts ids]"
  by (auto simp: GetPushReceipts_def split: prod.splits option.splits sum.splits)

lemma Send_no_eligible:
  assumes "Publish e cnf messages = (Return (Some responses, None), evs)"
    and "\<forall>t \<in> set responses. \<not> eligible t"
  shows "SendPushNotificationsWithReceipts e cnf messages d =
           (Return (Some (map ticket_result responses), None), evs)"
proof -
  from assms(2) have "map ID (filter eligible responses) = []"
    by (simp add: filter_eligible_empty)
  then show ?thesis by (simp add: Send_after_publish [OF assms(1)])
qed

lemma Send_fetches:
  assumes "Publish e cnf messages = (Return (Some responses, None), evs)"
    and "\<exists>t \<in> set responses. eligible t" and "\<not> ctx_done_delay e"
    and "GetPushReceipts e cnf (map ID (filter eligible responses)) = (fetched, evs')"
  shows "SendPushNotificationsWithReceipts e cnf messages d =
      ((case fetched of
          Panic \<Rightarrow> Panic
        | Return (_, Some err) \<Rightarrow>
            Return (Some (map ticket_result responses),
              Some (WrapError ''failed to fetch push receipts: '' err))
        | Return (receipts, None) \<Rightarrow>
            (case match_receipts receipts (map ticket_result responses) of
               Panic \<Rightarrow> Panic
             | Return matched \<Rightarrow> Return (Some matched, None))),
       evs @ Delay (if d = 0 then defaultReceiptDelay else d) # evs')"
proof -
  from assms(2) have "map ID (filter eligible responses) \<noteq> []"
    by (simp add: filter_eligible_empty)
  with assms(3,4) show ?thesis
    by (simp add: Send_after_publish [OF assms(1)] Let_def)
qed

lemma Send_results:
  assumes "Publish e cnf messages = (Return (Some responses, None), evs)"
    and "SendPushNotificationsWithReceipts e cnf messages d = (Return (Some results, err), evs')"
  shows "results = map ticket_result responses \<or>
         (\<exists>receipts. match_receipts receipts (map ticket_result responses) = Return results)"
proof (cases "\<exists>t \<in> set responses. eligible t")
  case False
  with Send_no_eligible [OF assms(1), of d] assms(2) show ?thesis by simp
next
  case True
  then have ne: "map ID (filter eligible responses) \<noteq> []"
    by (simp add: filter_eligible_empty)
  show ?thesis
  proof (cases "ctx_done_delay e")
    case True
    with ne assms(2) show ?thesis
      by (simp add: Send_after_publish [OF assms(1)] Let_def)
  next
    case False
    obtain fetched evs2 where
      g: "GetPushReceipts e cnf (map ID (filter eligible responses)) = (fetched, evs2)"
      by (cases "GetPushReceipts e cnf (map ID (filter eligible responses))")
    note S = Send_fetches [OF assms(1) True False g, of d]
    show ?thesis
    proof (cases fetched)
      case Panic
      with S assms(2) show ?thesis by simp
    next
      case (Return p)
      obtain receipts ferr where p: "p = (receipts, ferr)" by (cases p)
      show ?thesis
      proof (cases ferr)
        case None
        with S assms(2) Return p show ?thesis by (auto split: outcome.splits)
      next
        case (Some a)
        with S assms(2) Return p show ?thesis by simp
      qed
    qed
  qed
qed

lemma Send_terminal_entries:
  assumes "Publish e cnf messages = (Return (Some responses, None), evs)"
    and "SendPushNotificationsWithReceipts e cnf messages d = (Return (Some results, err), evs')"
  shows "length results = length responses \<and>
       (\<forall>i < length responses. \<not> eligible (responses ! i) \<longrightarrow>
          results ! i = ticket_result (responses ! i))"
proof -
  from Send_results [OF assms]
  show ?thesis
  proof
    assume "results = map ticket_result responses"
    then show ?thesis by simp
  next
    assume "\<exists>receipts. match_receipts receipts (map ticket_result responses) = Return results"
    then obtain receipts where
      "match_receipts receipts (map ticket_result responses) = Return results" ..
    from match_receipts_Return [OF this] show ?thesis
      by (simp add: ticket_result_def)
  qed
qed

lemma Publish_mixed:
  "Publish (server (Some replyMixed)) cnf0 (map Some [msgAB]) =
     (Return (Some [(ticket ''t1'' ''ok'' [])\<lparr>MessageItem := Some msgAB\<rparr>,
                    (ticket [] ''error'' ''not a registered recipient'')\<lparr>MessageItem := Some msgAB\<rparr>],
              None), [Invoke])"
proof -
  have ex: "expandedMessages (map Some [msgAB]) = Return [Some msgAB, Some msgAB]"
    by (simp add: msgAB_def numeral_2_eq_2)
  show ?thesis
    using validate_examples(1) WithRetry_server [of "Some replyMixed"] ex
    by (simp add: Publish_def publish_def server_simps replyMixed_def
        maxNotificationsPerRequest_def)
qed

lemma Publish_rejected:
  "Publish (server (Some replyRejected)) cnf0 (map Some [msgA]) =
     (Return (Some [(ticket [] ''error'' ''not a registered recipient'')\<lparr>MessageItem := Some msgA\<rparr>],
              None), [Invoke])"
proof -
  have ex: "expandedMessages (map Some [msgA]) = Return [Some msgA]"
    by (simp add: msgA_def)
  show ?thesis
    using validate_examples(2) WithRetry_server [of "Some replyRejected"] ex
    by (simp add: Publish_def publish_def server_simps replyRejected_def
        maxNotificationsPerRequest_def)
qed

lemma eligible_examples:
  "eligible ((ticket ''t1'' ''ok'' [])\<lparr>MessageItem := m\<rparr>)"
  "\<not> eligible ((ticket [] ''error'' ''not a registered recipient'')\<lparr>MessageItem := m\<rparr>)"
  by (simp_all add: eligible_def IsOk_def ticket_def)

lemma fetch_unreachable:
  "GetPushReceipts (server reply) cnf0 [''t1''] =
     (Return (None, Some (TransportError ''connection refused'')), [GetReceipts [''t1'']])"
  by (simp add: GetPushReceipts_def maxReceiptsPerRequest_def server_def)

text \<open>
  C7, as stated, fails. A ticket with status \<open>error\<close> and the identifier \<open>abc\<close> has a
  non-empty identifier and is not eligible: the call returns at once, without waiting
  or fetching, and the ticket's result is terminal.
\<close>

theorem Send_partition_counterexample:
  "ID (ticket ''abc'' ''error'' ''boom'') \<noteq> [] \<and>
   SendPushNotificationsWithReceipts (server (Some replyErrorWithID)) cnf0 [Some msgA] 0 =
     (Return (Some [\<lparr>TicketID = [], ResultMessage = Some msgA,
                      PushTicket = Some ((ticket ''abc'' ''error'' ''boom'')\<lparr>MessageItem := Some msgA\<rparr>),
                      PushReceipt = None,
                      ResultError = Some (ErrorString ''push ticket error: boom'')\<rparr>], None),
      [Invoke])"
proof -
  have ex: "expandedMessages [Some msgA] = Return [Some msgA]"
    by (simp add: msgA_def)
  have p: "Publish (server (Some replyErrorWithID)) cnf0 [Some msgA] =
     (Return (Some [(ticket ''abc'' ''error'' ''boom'')\<lparr>MessageItem := Some msgA\<rparr>], None), [Invoke])"
    using validate_examples(2) WithRetry_server [of "Some replyErrorWithID"] ex
    by (simp add: Publish_def publish_def server_simps replyErrorWithID_def
        maxNotificationsPerRequest_def)
  show ?thesis
    by (simp add: Send_after_publish [OF p] eligible_def IsOk_def ticket_def ticket_result_def)
qed
text \<open>
  C7, amended. In \<open>SendPushNotificationsWithReceipts\<close>, the tickets eligible for the
  receipt fetch are exactly those with status \<open>ok\<close> and a non-empty identifier: the
  fetch is made for their identifiers, in order. Every other ticket is terminal: in
  every result list the call returns, its entry holds the ticket, no receipt and the
  error \<open>push ticket error:\<close> followed by the ticket's message. If no ticket is eligible
  the call returns at once with the terminal entries and no error, without waiting or
  fetching.
\<close>

theorem Send_partition:
  assumes "Publish e cnf messages = (Return (Some responses, None), evs)"
  shows "(\<forall>t. eligible t = (Status t = ''ok'' \<and> ID t \<noteq> [])) \<and>
    ((\<forall>t \<in> set responses. \<not> eligible t) \<longrightarrow>
       SendPushNotificationsWithReceipts e cnf messages d =
         (Return (Some (map ticket_result responses), None), evs)) \<and>
    ((\<exists>t \<in> set responses. eligible t) \<and> \<not> ctx_done_delay e \<longrightarrow>
       snd (SendPushNotificationsWithReceipts e cnf messages d) =
         evs @ Delay (if d = 0 then defaultReceiptDelay else d)
           # snd (GetPushReceipts e cnf (map ID (filter eligible responses)))) \<and>
    ((\<exists>t \<in> set responses. eligible t) \<and> \<not> ctx_done_delay e \<and>
     length (filter eligible responses) \<le> maxReceiptsPerRequest \<longrightarrow>
       snd (SendPushNotificationsWithReceipts e cnf messages d) =
         evs @ [Delay (if d = 0 then defaultReceiptDelay else d),
                GetReceipts (map ID (filter eligible responses))]) \<and>
    (\<forall>results err evs'.
       SendPushNotificationsWithReceipts e cnf messages d = (Return (Some results, err), evs') \<longrightarrow>
       length results = length responses \<and>
       (\<forall>i < length responses. \<not> eligible (responses ! i) \<longrightarrow>
          results ! i =
            \<lparr>TicketID = [], ResultMessage = MessageItem (responses ! i),
             PushTicket = Some (responses ! i), PushReceipt = None,
             ResultError = Some (ErrorString (''push ticket error: '' @ Message (responses ! i)))\<rparr>))"
proof -
  let ?ids = "map ID (filter eligible responses)"
  let ?delay = "if d = 0 then defaultReceiptDelay else d"
  have 1: "\<forall>t. eligible t = (Status t = ''ok'' \<and> ID t \<noteq> [])"
    by (simp add: eligible_def IsOk_def)
  have 2: "(\<forall>t \<in> set responses. \<not> eligible t) \<longrightarrow>
       SendPushNotificationsWithReceipts e cnf messages d =
         (Return (Some (map ticket_result responses), None), evs)"
    using Send_no_eligible [OF assms] by blast
  have 3: "(\<exists>t \<in> set responses. eligible t) \<and> \<not> ctx_done_delay e \<longrightarrow>
       snd (SendPushNotificationsWithReceipts e cnf messages d) =
         evs @ Delay ?delay # snd (GetPushReceipts e cnf ?ids)"
  proof
    assume h: "(\<exists>t \<in> set responses. eligible t) \<and> \<not> ctx_done_delay e"
    obtain fetched evs2 where g: "GetPushReceipts e cnf ?ids = (fetched, evs2)"
      by (cases "GetPushReceipts e cnf ?ids")
    from h have h1: "\<exists>t \<in> set responses. eligible t" and h2: "\<not> ctx_done_delay e"
      by simp_all
    from Send_fetches [OF assms h1 h2 g, of d] g
    show "snd (SendPushNotificationsWithReceipts e cnf messages d) =
         evs @ Delay ?delay # snd (GetPushReceipts e cnf ?ids)"
      by simp
  qed
  have 4: "(\<exists>t \<in> set responses. eligible t) \<and> \<not> ctx_done_delay e \<and>
     length (filter eligible responses) \<le> maxReceiptsPerRequest \<longrightarrow>
       snd (SendPushNotificationsWithReceipts e cnf messages d) =
         evs @ [Delay ?delay, GetReceipts ?ids]"
  proof
    assume h: "(\<exists>t \<in> set responses. eligible t) \<and> \<not> ctx_done_delay e \<and>
       length (filter eligible responses) \<le> maxReceiptsPerRequest"
    then have ne: "?ids \<noteq> []" by (simp add: filter_eligible_empty)
    from h have "length ?ids \<le> maxReceiptsPerRequest" by simp
    from GetPushReceipts_events [OF ne this] 3 h
    show "snd (SendPushNotificationsWithReceipts e cnf messages d) =
         evs @ [Delay ?delay, GetReceipts ?ids]"
      by simp
  qed
  have 5: "\<forall>results err evs'.
       SendPushNotificationsWithReceipts e cnf messages d = (Return (Some results, err), evs') \<longrightarrow>
       length results = length responses \<and>
       (\<forall>i < length responses. \<not> eligible (responses ! i) \<longrightarrow>
          results ! i =
            \<lparr>TicketID = [], ResultMessage = MessageItem (responses ! i),
             PushTicket = Some (responses ! i), PushReceipt = None,
             ResultError = Some (ErrorString (''push ticket error: '' @ Message (responses ! i)))\<rparr>)"
  proof (intro allI impI conjI)
    fix results err evs'
    assume r: "SendPushNotificationsWithReceipts e cnf messages d =
                 (Return (Some results, err), evs')"
    from Send_terminal_entries [OF assms r]
    show "length results = length responses" by simp
  next
    fix results err evs' i
    assume r: "SendPushNotificationsWithReceipts e cnf messages d =
                 (Return (Some results, err), evs')"
      and i: "i < length responses" and n: "\<not> eligible (responses ! i)"
    from Send_terminal_entries [OF assms r] i n
    have "results ! i = ticket_result (responses ! i)" by simp
    with ticket_result_terminal [OF n]
    show "results ! i =
            \<lparr>TicketID = [], ResultMessage = MessageItem (responses ! i),
             PushTicket = Some (responses ! i), PushReceipt = None,
             ResultError = Some (ErrorString (''push ticket error: '' @ Message (responses ! i)))\<rparr>"
      by simp
  qed
  show ?thesis
    by (rule conjI [OF 1 conjI [OF 2 conjI [OF 3 conjI [OF 4 5]]]])
qed

theorem Send_partition_witness:
  "Publish (server (Some replyMixed)) cnf0 (map Some [msgAB]) =
     (Return (Some [(ticket ''t1'' ''ok'' [])\<lparr>MessageItem := Some msgAB\<rparr>,
                    (ticket [] ''error'' ''not a registered recipient'')\<lparr>MessageItem := Some msgAB\<rparr>],
              None), [Invoke]) \<and>
   snd (SendPushNotificationsWithReceipts (server (Some replyMixed)) cnf0 (map Some [msgAB]) 0) =
     [Invoke, Delay 900000000000, GetReceipts [''t1'']] \<and>
   SendPushNotificationsWithReceipts (server (Some replyRejected)) cnf0 (map Some [msgA]) 0 =
     (Return (Some [\<lparr>TicketID = [], ResultMessage = Some msgA,
                      PushTicket = Some ((ticket [] ''error'' ''not a registered recipient'')
                                           \<lparr>MessageItem := Some msgA\<rparr>),
                      PushReceipt = None,
                      ResultError = Some (ErrorString
                        ''push ticket error: not a registered recipient'')\<rparr>], None),
      [Invoke])"
proof -
  let ?t1 = "(ticket ''t1'' ''ok'' [])\<lparr>MessageItem := Some msgAB\<rparr>"
  let ?t2 = "(ticket [] ''error'' ''not a registered recipient'')\<lparr>MessageItem := Some msgAB\<rparr>"
  let ?t3 = "(ticket [] ''error'' ''not a registered recipient'')\<lparr>MessageItem := Some msgA\<rparr>"
  note M = Send_partition [OF Publish_mixed, of 0]
  note R = Send_partition [OF Publish_rejected, of 0]
  have h: "(\<exists>t \<in> set [?t1, ?t2]. eligible t) \<and> \<not> ctx_done_delay (server (Some replyMixed)) \<and>
           length (filter eligible [?t1, ?t2]) \<le> maxReceiptsPerRequest"
    by (simp add: eligible_examples server_def maxReceiptsPerRequest_def)
  from M [THEN conjunct2, THEN conjunct2, THEN conjunct2, THEN conjunct1, rule_format, OF h]
  have a: "snd (SendPushNotificationsWithReceipts (server (Some replyMixed)) cnf0
              (map Some [msgAB]) 0) = [Invoke, Delay 900000000000, GetReceipts [''t1'']]"
    by (simp add: eligible_def IsOk_def defaultReceiptDelay_def ticket_def)
  have n: "\<forall>t \<in> set [?t3]. \<not> eligible t"
    by (simp add: eligible_examples)
  from R [THEN conjunct2, THEN conjunct1, THEN mp, OF n]
  have b: "SendPushNotificationsWithReceipts (server (Some replyRejected)) cnf0 (map Some [msgA]) 0 =
     (Return (Some [\<lparr>TicketID = [], ResultMessage = Some msgA, PushTicket = Some ?t3,
                      PushReceipt = None,
                      ResultError = Some (ErrorString
                        ''push ticket error: not a registered recipient'')\<rparr>], None),
      [Invoke])"
    by (simp add: ticket_result_def eligible_def IsOk_def ticket_def)
  from Publish_mixed a b show ?thesis by blast
qed

text \<open>
  C8. If the receipt fetch fails (it returns an error), the call returns the results
  built from the tickets, one per ticket and in order, with the fetch error wrapped:
  the entry of a ticket that is not eligible holds its ticket error, the entry of an
  eligible ticket holds its identifier, no receipt and no error.
\<close>

theorem Send_fetch_failure:
  assumes "Publish e cnf messages = (Return (Some responses, None), evs)"
    and "\<exists>t \<in> set responses. eligible t" and "\<not> ctx_done_delay e"
    and "GetPushReceipts e cnf (map ID (filter eligible responses)) =
           (Return (receipts, Some err), evs')"
  shows "SendPushNotificationsWithReceipts e cnf messages d =
           (Return (Some (map ticket_result responses),
              Some (WrapError ''failed to fetch push receipts: '' err)),
            evs @ Delay (if d = 0 then defaultReceiptDelay else d) # evs') \<and>
         length (map ticket_result responses) = length responses \<and>
         (\<forall>t \<in> set responses.
            ticket_result t =
              (if eligible t
               then \<lparr>TicketID = ID t, ResultMessage = MessageItem t, PushTicket = Some t,
                     PushReceipt = None, ResultError = None\<rparr>
               else \<lparr>TicketID = [], ResultMessage = MessageItem t, PushTicket = Some t,
                     PushReceipt = None,
                     ResultError = Some (ErrorString (''push ticket error: '' @ Message t))\<rparr>))"
proof -
  from Send_fetches [OF assms, of d]
  have "SendPushNotificationsWithReceipts e cnf messages d =
           (Return (Some (map ticket_result responses),
              Some (WrapError ''failed to fetch push receipts: '' err)),
            evs @ Delay (if d = 0 then defaultReceiptDelay else d) # evs')"
    by simp
  moreover have "\<forall>t \<in> set responses.
            ticket_result t =
              (if eligible t
               then \<lparr>TicketID = ID t, ResultMessage = MessageItem t, PushTicket = Some t,
                     PushReceipt = None, ResultError = None\<rparr>
               else \<lparr>TicketID = [], ResultMessage = MessageItem t, PushTicket = Some t,
                     PushReceipt = None,
                     ResultError = Some (ErrorString (''push ticket error: '' @ Message t))\<rparr>)"
    by (simp add: ticket_result_terminal ticket_result_eligible)
  ultimately show ?thesis by simp
qed

theorem Send_fetch_failure_witness:
  "SendPushNotificationsWithReceipts (server (Some replyMixed)) cnf0 (map Some [msgAB]) 0 =
     (Return (Some [\<lparr>TicketID = ''t1'', ResultMessage = Some msgAB,
                      PushTicket = Some ((ticket ''t1'' ''ok'' [])\<lparr>MessageItem := Some msgAB\<rparr>),
                      PushReceipt = None, ResultError = None\<rparr>,
                    \<lparr>TicketID = [], ResultMessage = Some msgAB,
                      PushTicket = Some ((ticket [] ''error'' ''not a registered recipient'')
                                           \<lparr>MessageItem := Some msgAB\<rparr>),
                      PushReceipt = None,
                      ResultError = Some (ErrorString
                        ''push ticket error: not a registered recipient'')\<rparr>],
              Some (WrapError ''failed to fetch push receipts: ''
                      (TransportError ''connection refused''))),
      [Invoke, Delay 900000000000, GetReceipts [''t1'']])"
proof -
  let ?t1 = "(ticket ''t1'' ''ok'' [])\<lparr>MessageItem := Some msgAB\<rparr>"
  let ?t2 = "(ticket [] ''error'' ''not a registered recipient'')\<lparr>MessageItem := Some msgAB\<rparr>"
  have h: "\<exists>t \<in> set [?t1, ?t2]. eligible t" by (simp add: eligible_examples)
  have c: "\<not> ctx_done_delay (server (Some replyMixed))" by (simp add: server_def)
  have i: "map ID (filter eligible [?t1, ?t2]) = [''t1'']"
    by (simp add: eligible_def IsOk_def ticket_def)
  have f: "GetPushReceipts (server (Some replyMixed)) cnf0 (map ID (filter eligible [?t1, ?t2])) =
             (Return (None, Some (TransportError ''connection refused'')), [GetReceipts [''t1'']])"
    by (simp only: i fetch_unreachable)
  from Send_fetch_failure [OF Publish_mixed h c f, of 0, THEN conjunct1]
  show ?thesis
    by (simp add: ticket_result_def eligible_def IsOk_def defaultReceiptDelay_def ticket_def)
qed

end
